theory Spec2Isabelle
  imports Main "HOL-Library.Multiset" "HOL-Library.List_Lexorder" "HOL-Library.Char_ord"
    "HOL-Library.Option_ord"
begin

section \<open>The schedule store\<close>

text \<open>
  The queries of \<^verbatim>\<open>gtfsdb/query.sql\<close> run over the tables of the schedule store. A table is
  the list of its rows in the order a full scan meets them; a row is a record of the
  columns the modelled queries read (the remaining columns of the \<^verbatim>\<open>INSERT\<close> statements are
  carried along by the queries unchanged and are left out). \<^verbatim>\<open>TEXT\<close> columns are strings
  compared bytewise, \<^verbatim>\<open>INTEGER\<close> columns are integers, and the one nullable column that a
  modelled predicate reads, \<^verbatim>\<open>trips.block_id\<close>, is an option.
\<close>

record trip =
  t_id :: string
  t_route_id :: string
  t_service_id :: string
  t_block_id :: "string option"

record stop_time =
  st_trip_id :: string
  st_arrival_time :: int
  st_departure_time :: int
  st_stop_id :: string
  st_stop_sequence :: int

record route =
  r_id :: string
  r_agency_id :: string

record calendar =
  c_id :: string
  c_monday :: int
  c_tuesday :: int
  c_wednesday :: int
  c_thursday :: int
  c_friday :: int
  c_saturday :: int
  c_sunday :: int
  c_start_date :: string
  c_end_date :: string

record calendar_date =
  cd_service_id :: string
  cd_date :: string
  cd_exception_type :: int

record block_trip_index =
  bti_id :: int
  bti_index_key :: string
  bti_service_ids :: string
  bti_stop_sequence_key :: string
  bti_created_at :: int

record block_trip_entry =
  bte_block_trip_index_id :: int
  bte_trip_id :: string
  bte_block_id :: string
  bte_service_id :: string
  bte_block_trip_sequence :: int

record db =
  trips :: "trip list"
  stop_times :: "stop_time list"
  routes :: "route list"
  calendars :: "calendar list"
  calendar_dates :: "calendar_date list"
  block_trip_indexes :: "block_trip_index list"
  block_trip_entries :: "block_trip_entry list"

text \<open>
  SQL leaves the order of rows with equal sort keys open. Where a query returns many rows,
  \<^verbatim>\<open>ORDER BY\<close> is a sort of the joined rows and \<^verbatim>\<open>LIMIT n\<close> keeps the first \<open>n\<close>; what is
  proved of such a result does not depend on the order among equal keys. Where a query
  returns one row, \<^verbatim>\<open>ORDER BY \<dots> LIMIT 1\<close>, the row is one whose sort key is least, and
  the query text does not say which when several rows share the least key: the model gives
  every row that can come first, and no row when the join is empty.
\<close>

definition order_by_limit_1 :: "('a \<Rightarrow> int) \<Rightarrow> 'a list \<Rightarrow> 'a list" where
  "order_by_limit_1 key rows = [r \<leftarrow> rows. \<forall>r' \<in> set rows. key r \<le> key r']"

subsection \<open>GetArrivalsAndDeparturesForStop\<close>

text \<open>
  \<^verbatim>\<open>FROM stop_times st JOIN trips t ON st.trip_id = t.id JOIN routes r ON t.route_id = r.id
  WHERE st.stop_id = ?\<close>: the joined rows before ordering.
\<close>

definition arrivals_and_departures_rows :: "db \<Rightarrow> string \<Rightarrow> (stop_time \<times> trip \<times> route) list" where
  "arrivals_and_departures_rows d stop_id =
     [(st, t, r).
        st \<leftarrow> stop_times d,
        t \<leftarrow> trips d, st_trip_id st = t_id t,
        r \<leftarrow> routes d, t_route_id t = r_id r,
        st_stop_id st = stop_id]"

definition row_arrival_time :: "stop_time \<times> trip \<times> route \<Rightarrow> int" where
  "row_arrival_time row = st_arrival_time (fst row)"

text \<open>\<^verbatim>\<open>ORDER BY st.arrival_time LIMIT 50\<close>.\<close>

definition GetArrivalsAndDeparturesForStop :: "db \<Rightarrow> string \<Rightarrow> (stop_time \<times> trip \<times> route) list" where
  "GetArrivalsAndDeparturesForStop d stop_id =
     take 50 (sort_key row_arrival_time (arrivals_and_departures_rows d stop_id))"

subsection \<open>GetStopTimesForStopInWindow\<close>

text \<open>
  \<^verbatim>\<open>FROM stop_times st JOIN trips t ON st.trip_id = t.id WHERE st.stop_id = @stop_id AND
  ((st.arrival_time BETWEEN @window_start_nanos AND @window_end_nanos) OR
   (st.departure_time BETWEEN @window_start_nanos AND @window_end_nanos))
  ORDER BY st.arrival_time\<close>. \<^verbatim>\<open>x BETWEEN a AND b\<close> is \<open>a \<le> x \<and> x \<le> b\<close>.
\<close>

definition in_window :: "int \<Rightarrow> int \<Rightarrow> stop_time \<Rightarrow> bool" where
  "in_window window_start window_end st \<longleftrightarrow>
     (window_start \<le> st_arrival_time st \<and> st_arrival_time st \<le> window_end)
     \<or> (window_start \<le> st_departure_time st \<and> st_departure_time st \<le> window_end)"

definition stop_times_in_window_rows ::
    "db \<Rightarrow> string \<Rightarrow> int \<Rightarrow> int \<Rightarrow> (stop_time \<times> trip) list" where
  "stop_times_in_window_rows d stop_id window_start window_end =
     [(st, t).
        st \<leftarrow> stop_times d,
        t \<leftarrow> trips d, st_trip_id st = t_id t,
        st_stop_id st = stop_id \<and> in_window window_start window_end st]"

definition GetStopTimesForStopInWindow ::
    "db \<Rightarrow> string \<Rightarrow> int \<Rightarrow> int \<Rightarrow> (stop_time \<times> trip) list" where
  "GetStopTimesForStopInWindow d stop_id window_start window_end =
     sort_key (\<lambda>row. st_arrival_time (fst row))
       (stop_times_in_window_rows d stop_id window_start window_end)"

text \<open>
  Modelled from the spec: the table declarations are not among the sources. By section 3
  of the specification a trip has an identifier and every StopTime row is the stop event
  of a trip: trip identifiers are a key of \<^verbatim>\<open>trips\<close>, and \<^verbatim>\<open>stop_times.trip_id\<close> refers to
  a row of \<^verbatim>\<open>trips\<close>.
\<close>

definition trips_key :: "db \<Rightarrow> bool" where
  "trips_key d \<longleftrightarrow> distinct (map t_id (trips d))"

text \<open>
  Modelled from the spec: the reference from a StopTime row to its trip (section 3), the
  declaration of \<^verbatim>\<open>stop_times\<close> not being among the sources.
\<close>

definition stop_times_trip_fk :: "db \<Rightarrow> bool" where
  "stop_times_trip_fk d \<longleftrightarrow>
     (\<forall>st \<in> set (stop_times d). st_trip_id st \<in> set (map t_id (trips d)))"

subsection \<open>GetActiveServiceIDsForDate\<close>

text \<open>
  \<^verbatim>\<open>SUBSTR(x, y, z)\<close> with a start \<open>y \<ge> 1\<close>, as the query calls it: \<open>z\<close> characters from the
  \<open>y\<close>-th.
\<close>

definition SUBSTR :: "string \<Rightarrow> nat \<Rightarrow> nat \<Rightarrow> string" where
  "SUBSTR x y z = take z (drop (y - 1) x)"

text \<open>
  The query's four common table expressions and its final \<^verbatim>\<open>SELECT DISTINCT ... UNION
  SELECT DISTINCT ...\<close>. \<^verbatim>\<open>STRFTIME('%w', \<dots>)\<close> is SQLite's own function, not code of this
  repository: it is the parameter \<open>strftime_w\<close>, from the \<^verbatim>\<open>YYYY-MM-DD\<close> text to the
  weekday digit, \<open>None\<close> for SQL's \<^verbatim>\<open>NULL\<close> on text that is no date. A comparison with
  \<^verbatim>\<open>NULL\<close> is not true, so no weekday branch holds then.
\<close>

definition formatted_date :: "(string \<Rightarrow> string option) \<Rightarrow> string \<Rightarrow> string option" where
  "formatted_date strftime_w date =
     strftime_w (SUBSTR date 1 4 @ ''-'' @ SUBSTR date 5 2 @ ''-'' @ SUBSTR date 7 2)"

definition base_services :: "(string \<Rightarrow> string option) \<Rightarrow> db \<Rightarrow> string \<Rightarrow> string list" where
  "base_services strftime_w d date =
     (let weekday = formatted_date strftime_w date in
      [c_id c.
         c \<leftarrow> calendars d,
         c_start_date c \<le> date
         \<and> c_end_date c \<ge> date
         \<and> ((weekday = Some ''0'' \<and> c_sunday c = 1) \<or>
            (weekday = Some ''1'' \<and> c_monday c = 1) \<or>
            (weekday = Some ''2'' \<and> c_tuesday c = 1) \<or>
            (weekday = Some ''3'' \<and> c_wednesday c = 1) \<or>
            (weekday = Some ''4'' \<and> c_thursday c = 1) \<or>
            (weekday = Some ''5'' \<and> c_friday c = 1) \<or>
            (weekday = Some ''6'' \<and> c_saturday c = 1))])"

definition removed_services :: "db \<Rightarrow> string \<Rightarrow> string list" where
  "removed_services d date =
     [cd_service_id x. x \<leftarrow> calendar_dates d, cd_date x = date \<and> cd_exception_type x = 2]"

definition added_services :: "db \<Rightarrow> string \<Rightarrow> string list" where
  "added_services d date =
     [cd_service_id x. x \<leftarrow> calendar_dates d, cd_date x = date \<and> cd_exception_type x = 1]"

definition GetActiveServiceIDsForDate ::
    "(string \<Rightarrow> string option) \<Rightarrow> db \<Rightarrow> string \<Rightarrow> string list" where
  "GetActiveServiceIDsForDate strftime_w d date =
     remdups ([service_id \<leftarrow> base_services strftime_w d date.
                 service_id \<notin> set (removed_services d date)]
              @ added_services d date)"

text \<open>
  Modelled from the spec: the table declarations (\<^verbatim>\<open>schema.sql\<close>) are not among the sources.
  Section 3 of the specification gives the key of CalendarDateException: at most one row
  per (service identifier, date) pair.
\<close>

definition calendar_dates_key :: "db \<Rightarrow> bool" where
  "calendar_dates_key d \<longleftrightarrow>
     distinct (map (\<lambda>x. (cd_service_id x, cd_date x)) (calendar_dates d))"

subsection \<open>First and last stop of a trip\<close>

text \<open>
  \<^verbatim>\<open>(SELECT MIN(stop_sequence) FROM stop_times WHERE trip_id = t.id)\<close> and its \<^verbatim>\<open>MAX\<close>
  sibling; an aggregate over no rows is \<^verbatim>\<open>NULL\<close>.
\<close>

definition min_stop_sequence :: "db \<Rightarrow> string \<Rightarrow> int option" where
  "min_stop_sequence d trip_id =
     (case [st_stop_sequence st. st \<leftarrow> stop_times d, st_trip_id st = trip_id] of
        [] \<Rightarrow> None
      | x # xs \<Rightarrow> Some (fold min xs x))"

definition max_stop_sequence :: "db \<Rightarrow> string \<Rightarrow> int option" where
  "max_stop_sequence d trip_id =
     (case [st_stop_sequence st. st \<leftarrow> stop_times d, st_trip_id st = trip_id] of
        [] \<Rightarrow> None
      | x # xs \<Rightarrow> Some (fold max xs x))"

subsection \<open>GetActiveTripInBlockAtTime\<close>

text \<open>
  \<^verbatim>\<open>FROM trips t JOIN stop_times st_first ON \<dots> JOIN stop_times st_last ON \<dots> WHERE
  t.block_id = :block_id AND t.service_id IN (service_ids) AND
  st_first.departure_time <= :current_time AND st_last.arrival_time >= :current_time\<close>.
  A \<^verbatim>\<open>NULL\<close> block id equals no parameter.
\<close>

definition active_trip_in_block_rows ::
    "db \<Rightarrow> string \<Rightarrow> string list \<Rightarrow> int \<Rightarrow> (trip \<times> stop_time \<times> stop_time) list" where
  "active_trip_in_block_rows d block_id service_ids current_time =
     [(t, st_first, st_last).
        t \<leftarrow> trips d,
        st_first \<leftarrow> stop_times d,
        t_id t = st_trip_id st_first
          \<and> Some (st_stop_sequence st_first) = min_stop_sequence d (t_id t),
        st_last \<leftarrow> stop_times d,
        t_id t = st_trip_id st_last
          \<and> Some (st_stop_sequence st_last) = max_stop_sequence d (t_id t),
        t_block_id t = Some block_id
          \<and> t_service_id t \<in> set service_ids
          \<and> st_departure_time st_first \<le> current_time
          \<and> st_arrival_time st_last \<ge> current_time]"

definition row_first_departure :: "trip \<times> stop_time \<times> stop_time \<Rightarrow> int" where
  "row_first_departure row = st_departure_time (fst (snd row))"

text \<open>
  \<^verbatim>\<open>SELECT t.id \<dots> ORDER BY st_first.departure_time ASC LIMIT 1\<close>, a \<^verbatim>\<open>:one\<close> query: the
  trip ids the query can return, none when the list is empty.
\<close>

definition GetActiveTripInBlockAtTime ::
    "db \<Rightarrow> string \<Rightarrow> string list \<Rightarrow> int \<Rightarrow> string list" where
  "GetActiveTripInBlockAtTime d block_id service_ids current_time =
     map (\<lambda>row. t_id (fst row))
       (order_by_limit_1 row_first_departure
          (active_trip_in_block_rows d block_id service_ids current_time))"

subsection \<open>GetActiveTripForRouteAtTime\<close>



subsection \<open>The active interval of a trip, in the specification's words\<close>

text \<open>
  First-departure is the minimum departure time and last-arrival the maximum arrival time
  among a trip's stop events; a trip without stop events has neither.
\<close>

definition trip_stop_times :: "db \<Rightarrow> string \<Rightarrow> stop_time list" where
  "trip_stop_times d trip_id = [st \<leftarrow> stop_times d. st_trip_id st = trip_id]"

definition first_departure :: "db \<Rightarrow> string \<Rightarrow> int option" where
  "first_departure d trip_id =
     (case map st_departure_time (trip_stop_times d trip_id) of
        [] \<Rightarrow> None
      | x # xs \<Rightarrow> Some (fold min xs x))"

definition last_arrival :: "db \<Rightarrow> string \<Rightarrow> int option" where
  "last_arrival d trip_id =
     (case map st_arrival_time (trip_stop_times d trip_id) of
        [] \<Rightarrow> None
      | x # xs \<Rightarrow> Some (fold max xs x))"

text \<open>
  Section 3 of the specification states an invariant of StopTime rows that the store does
  not enforce: arrival and departure are monotonically non-decreasing within a trip by
  sequence.
\<close>

definition stop_times_monotone :: "db \<Rightarrow> bool" where
  "stop_times_monotone d \<longleftrightarrow>
     (\<forall>a \<in> set (stop_times d). \<forall>b \<in> set (stop_times d).
        st_trip_id a = st_trip_id b \<and> st_stop_sequence a \<le> st_stop_sequence b
        \<longrightarrow> st_departure_time a \<le> st_departure_time b
            \<and> st_arrival_time a \<le> st_arrival_time b)"

text \<open>A trip of the block that matches at \<open>current_time\<close>, with its first departure.\<close>

definition block_match :: "db \<Rightarrow> string \<Rightarrow> string list \<Rightarrow> int \<Rightarrow> trip \<Rightarrow> int \<Rightarrow> bool" where
  "block_match d block_id service_ids current_time t fd \<longleftrightarrow>
     t \<in> set (trips d)
     \<and> t_block_id t = Some block_id
     \<and> t_service_id t \<in> set service_ids
     \<and> first_departure d (t_id t) = Some fd
     \<and> fd \<le> current_time
     \<and> (case last_arrival d (t_id t) of None \<Rightarrow> False | Some la \<Rightarrow> current_time \<le> la)"


subsection \<open>The active interval of a trip, as the two queries read it\<close>

text \<open>
  The queries join a trip with its row of \<^verbatim>\<open>stop_times\<close> at the lowest stop sequence and
  with its row at the highest, and compare the departure time of the first and the arrival
  time of the second.
\<close>

definition first_stop :: "db \<Rightarrow> string \<Rightarrow> stop_time \<Rightarrow> bool" where
  "first_stop d trip_id st \<longleftrightarrow>
     st_trip_id st = trip_id \<and> Some (st_stop_sequence st) = min_stop_sequence d trip_id"

definition last_stop :: "db \<Rightarrow> string \<Rightarrow> stop_time \<Rightarrow> bool" where
  "last_stop d trip_id st \<longleftrightarrow>
     st_trip_id st = trip_id \<and> Some (st_stop_sequence st) = max_stop_sequence d trip_id"

text \<open>
  A trip of the block with an active service id whose first stop it has left by
  \<open>current_time\<close>, at \<open>fd\<close>, and whose last stop it reaches no earlier.
\<close>

definition block_stop_match ::
    "db \<Rightarrow> string \<Rightarrow> string list \<Rightarrow> int \<Rightarrow> trip \<Rightarrow> int \<Rightarrow> bool" where
  "block_stop_match d block_id service_ids current_time t fd \<longleftrightarrow>
     t \<in> set (trips d)
     \<and> t_block_id t = Some block_id
     \<and> t_service_id t \<in> set service_ids
     \<and> (\<exists>f \<in> set (stop_times d). first_stop d (t_id t) f \<and> st_departure_time f = fd)
     \<and> fd \<le> current_time
     \<and> (\<exists>l \<in> set (stop_times d). last_stop d (t_id t) l \<and> current_time \<le> st_arrival_time l)"


subsection \<open>GetTripsByBlockIDOrdered\<close>

text \<open>
  \<^verbatim>\<open>MIN\<close> and \<^verbatim>\<open>MAX\<close> over the values of a group; \<^verbatim>\<open>NULL\<close> over no value.
\<close>

definition MIN_agg :: "int list \<Rightarrow> int option" where
  "MIN_agg xs = (case xs of [] \<Rightarrow> None | x # r \<Rightarrow> Some (fold min r x))"

definition MAX_agg :: "int list \<Rightarrow> int option" where
  "MAX_agg xs = (case xs of [] \<Rightarrow> None | x # r \<Rightarrow> Some (fold max r x))"

record trips_by_block_row =
  tb_id :: string
  tb_block_id :: "string option"
  tb_service_id :: string
  tb_first_departure_time :: "int option"
  tb_last_arrival_time :: "int option"

text \<open>
  \<^verbatim>\<open>FROM trips t JOIN stop_times st ON st.trip_id = t.id WHERE t.block_id = ? AND
  t.service_id IN (service_ids)\<close>.
\<close>

definition trips_by_block_join :: "db \<Rightarrow> string \<Rightarrow> string list \<Rightarrow> (trip \<times> stop_time) list" where
  "trips_by_block_join d block_id service_ids =
     [(t, st).
        t \<leftarrow> trips d,
        st \<leftarrow> stop_times d, st_trip_id st = t_id t,
        t_block_id t = Some block_id \<and> t_service_id t \<in> set service_ids]"

text \<open>\<^verbatim>\<open>GROUP BY t.id, t.block_id, t.service_id\<close>: the key of a joined row.\<close>

definition group_by_key :: "trip \<times> stop_time \<Rightarrow> string \<times> string option \<times> string" where
  "group_by_key row = (t_id (fst row), t_block_id (fst row), t_service_id (fst row))"

text \<open>
  One row per group, in the order the groups are first met, with the aggregates over the
  group's rows; then \<^verbatim>\<open>ORDER BY MIN(st.departure_time)\<close>, where \<^verbatim>\<open>NULL\<close> sorts first.
\<close>

definition trips_by_block_group ::
    "(trip \<times> stop_time) list \<Rightarrow> string \<times> string option \<times> string \<Rightarrow> trips_by_block_row" where
  "trips_by_block_group rows k =
     \<lparr>tb_id = fst k, tb_block_id = fst (snd k), tb_service_id = snd (snd k),
      tb_first_departure_time =
        MIN_agg [st_departure_time (snd r). r \<leftarrow> rows, group_by_key r = k],
      tb_last_arrival_time =
        MAX_agg [st_arrival_time (snd r). r \<leftarrow> rows, group_by_key r = k]\<rparr>"

definition GetTripsByBlockIDOrdered :: "db \<Rightarrow> string \<Rightarrow> string list \<Rightarrow> trips_by_block_row list" where
  "GetTripsByBlockIDOrdered d block_id service_ids =
     (let rows = trips_by_block_join d block_id service_ids in
      sort_key tb_first_departure_time
        (map (trips_by_block_group rows) (remdups (map group_by_key rows))))"

subsection \<open>The statements of the block trip index\<close>

text \<open>
  \<^verbatim>\<open>DELETE FROM block_trip_entry\<close> and \<^verbatim>\<open>DELETE FROM block_trip_index\<close>.
\<close>

definition ClearBlockTripEntries :: "db \<Rightarrow> db" where
  "ClearBlockTripEntries d = d\<lparr>block_trip_entries := []\<rparr>"

definition ClearBlockTripIndices :: "db \<Rightarrow> db" where
  "ClearBlockTripIndices d = d\<lparr>block_trip_indexes := []\<rparr>"

text \<open>
  \<^verbatim>\<open>INSERT INTO block_trip_index (index_key, service_ids, stop_sequence_key, created_at)
  VALUES (?, ?, ?, ?) RETURNING id\<close>: the store with the new row, and the id of that row.
  The statement gives no id: the store generates it, and the declaration of the table,
  which says how, is not among the sources. The id the store generates for this row is the
  parameter \<open>generated_id\<close>.
\<close>

definition CreateBlockTripIndex ::
    "int \<Rightarrow> db \<Rightarrow> string \<Rightarrow> string \<Rightarrow> string \<Rightarrow> int \<Rightarrow> db \<times> int" where
  "CreateBlockTripIndex generated_id d index_key service_ids stop_sequence_key created_at =
     (d\<lparr>block_trip_indexes := block_trip_indexes d @
          [\<lparr>bti_id = generated_id, bti_index_key = index_key, bti_service_ids = service_ids,
            bti_stop_sequence_key = stop_sequence_key, bti_created_at = created_at\<rparr>]\<rparr>,
      generated_id)"

text \<open>
  \<^verbatim>\<open>INSERT INTO block_trip_entry (block_trip_index_id, trip_id, block_id, service_id,
  block_trip_sequence) VALUES (?, ?, ?, ?, ?)\<close>.
\<close>

definition CreateBlockTripEntry ::
    "db \<Rightarrow> int \<Rightarrow> string \<Rightarrow> string \<Rightarrow> string \<Rightarrow> int \<Rightarrow> db" where
  "CreateBlockTripEntry d block_trip_index_id trip_id block_id service_id block_trip_sequence =
     d\<lparr>block_trip_entries := block_trip_entries d @
         [\<lparr>bte_block_trip_index_id = block_trip_index_id, bte_trip_id = trip_id,
           bte_block_id = block_id, bte_service_id = service_id,
           bte_block_trip_sequence = block_trip_sequence\<rparr>]\<rparr>"

section \<open>Rebuild of the block trip index\<close>

text \<open>
  Modelled from the spec: the function that rebuilds the index (Rebuild, section 4.2) is
  not among the sources; only the four statements above and the ordering query are. The
  definitions of this section follow the five steps of section 4.2 and the failure
  semantics of section 7. Blocks are the non-null, non-empty block identifiers of the
  trips, in the order the trips are stored.
\<close>

definition indexed_blocks :: "db \<Rightarrow> string list" where
  "indexed_blocks d =
     remdups [b. t \<leftarrow> trips d, b \<leftarrow> (case t_block_id t of None \<Rightarrow> [] | Some b \<Rightarrow> [b]), b \<noteq> []]"

text \<open>
  Modelled from the spec: the service identifiers under which a block runs, one
  sub-partition each (step 4).
\<close>

definition block_service_ids :: "db \<Rightarrow> string \<Rightarrow> string list" where
  "block_service_ids d b = remdups [t_service_id t. t \<leftarrow> trips d, t_block_id t = Some b]"

text \<open>
  Modelled from the spec: step 4. Within each (block, service identifier) pair the trips
  are ordered by first departure, as GetTripsByBlockIDOrdered orders them, and numbered
  0, 1, 2, \<dots>: the rows are (block, service id, block_trip_sequence, trip).
\<close>

definition pair_trip_sequences ::
    "db \<Rightarrow> string \<Rightarrow> string \<Rightarrow> (string \<times> string \<times> nat \<times> trips_by_block_row) list" where
  "pair_trip_sequences d b s =
     map (\<lambda>nr. (b, s, nr)) (enumerate 0 (GetTripsByBlockIDOrdered d b [s]))"

text \<open>
  Modelled from the spec: step 4 over every block and every service identifier of the
  block, block by block.
\<close>

definition block_trip_sequences :: "db \<Rightarrow> (string \<times> string \<times> nat \<times> trips_by_block_row) list" where
  "block_trip_sequences d =
     concat (map (\<lambda>b. concat (map (pair_trip_sequences d b) (block_service_ids d b)))
       (indexed_blocks d))"

text \<open>
  Modelled from the spec: step 2. The structural fingerprint of a trip is the
  concatenation of its stop ids in stop-sequence order, each closed by a bar.
\<close>

definition stop_sequence_key :: "db \<Rightarrow> string \<Rightarrow> string" where
  "stop_sequence_key d trip_id =
     concat (map (\<lambda>st. st_stop_id st @ ''|'')
       (sort_key st_stop_sequence (trip_stop_times d trip_id)))"

text \<open>
  Modelled from the spec: steps 2 and 3. A group is a (block identifier, fingerprint)
  pair; the groups are taken in the order their first trip is numbered.
\<close>

definition trip_group :: "db \<Rightarrow> string \<times> string \<times> nat \<times> trips_by_block_row \<Rightarrow> string \<times> string" where
  "trip_group d row = (fst row, stop_sequence_key d (tb_id (snd (snd (snd row)))))"

text \<open>
  Modelled from the spec: step 2, the groups of all numbered trips, each once.
\<close>

definition index_groups :: "db \<Rightarrow> (string \<times> string) list" where
  "index_groups d = remdups (map (trip_group d) (block_trip_sequences d))"

text \<open>
  Modelled from the spec: step 3. The \<open>service_ids\<close> field is the union of the member
  trips' service identifiers, written in ascending order with commas between them; the
  \<open>index_key\<close> is the block identifier, a bar, and the fingerprint.
\<close>

fun join_comma :: "string list \<Rightarrow> string" where
  "join_comma [] = []"
| "join_comma [x] = x"
| "join_comma (x # y # ys) = x @ '','' @ join_comma (y # ys)"

text \<open>
  Modelled from the spec: step 3, the \<open>service_ids\<close> field of a group.
\<close>

definition group_service_ids :: "db \<Rightarrow> string \<times> string \<Rightarrow> string" where
  "group_service_ids d g =
     join_comma (sort (remdups
       [fst (snd row). row \<leftarrow> block_trip_sequences d, trip_group d row = g]))"

text \<open>
  Modelled from the spec: step 3, the \<open>index_key\<close> field of a group.
\<close>

definition index_key :: "string \<times> string \<Rightarrow> string" where
  "index_key g = fst g @ ''|'' @ snd g"

text \<open>
  Modelled from the spec: steps 1 to 5 as the statements Rebuild issues, in order: clear
  the entries, clear the indices, create one index per group, create one entry per numbered
  trip. An entry names its group; the id of the group's index row is the one its
  \<^verbatim>\<open>INSERT \<dots> RETURNING id\<close> gave, which Rebuild keeps in \<open>ids\<close>.
\<close>

datatype rebuild_step =
    Clear_entries
  | Clear_indices
  | Create_index "string \<times> string" string int
  | Create_entry "string \<times> string" string string int

text \<open>
  Modelled from the spec: the state of a running rebuild, the store and the ids returned
  so far.
\<close>

type_synonym rebuild_state = "db \<times> ((string \<times> string) \<times> int) list"

text \<open>
  Modelled from the spec: the effect of one statement of the rebuild, by the statements
  of \<^verbatim>\<open>query.sql\<close>. The ids the store generates during the rebuild are the parameter
  \<open>generated\<close>: \<open>generated k\<close> is the id of the index row created after \<open>k\<close> others.
\<close>

fun exec_step :: "(nat \<Rightarrow> int) \<Rightarrow> rebuild_step \<Rightarrow> rebuild_state \<Rightarrow> rebuild_state" where
  "exec_step generated Clear_entries (d, ids) = (ClearBlockTripEntries d, ids)"
| "exec_step generated Clear_indices (d, ids) = (ClearBlockTripIndices d, ids)"
| "exec_step generated (Create_index g service_ids created_at) (d, ids) =
     (let (d', new_id) =
            CreateBlockTripIndex (generated (length ids)) d (index_key g) service_ids (snd g)
              created_at
      in (d', ids @ [(g, new_id)]))"
| "exec_step generated (Create_entry g trip_id service_id n) (d, ids) =
     (CreateBlockTripEntry d (case map_of ids g of None \<Rightarrow> 0 | Some index_id \<Rightarrow> index_id)
        trip_id (fst g) service_id n, ids)"

text \<open>
  Modelled from the spec: step 5 for one numbered trip.
\<close>

definition entry_step :: "db \<Rightarrow> string \<times> string \<times> nat \<times> trips_by_block_row \<Rightarrow> rebuild_step" where
  "entry_step d row =
     Create_entry (trip_group d row) (tb_id (snd (snd (snd row)))) (fst (snd row))
       (int (fst (snd (snd row))))"

text \<open>
  Modelled from the spec: steps 1 to 5 in order.
\<close>

definition rebuild_steps :: "int \<Rightarrow> db \<Rightarrow> rebuild_step list" where
  "rebuild_steps now d =
     [Clear_entries, Clear_indices]
     @ map (\<lambda>g. Create_index g (group_service_ids d g) now) (index_groups d)
     @ map (entry_step d) (block_trip_sequences d)"

text \<open>
  Modelled from the spec: section 7. A store failure is an error value; the store executes
  \<open>healthy\<close> statements and fails at the next one. The statements run as one transaction:
  when one fails the store is left as it was before the first, otherwise the outcome of the
  last statement is committed.
\<close>

datatype store_error = StoreFailure

text \<open>
  Modelled from the spec: section 7, the statements run against a store that fails after
  \<open>healthy\<close> of them.
\<close>

fun run_steps ::
    "(nat \<Rightarrow> int) \<Rightarrow> nat \<Rightarrow> rebuild_step list \<Rightarrow> rebuild_state
       \<Rightarrow> store_error + rebuild_state" where
  "run_steps generated healthy [] st = Inr st"
| "run_steps generated 0 (x # xs) st = Inl StoreFailure"
| "run_steps generated (Suc healthy) (x # xs) st =
     run_steps generated healthy xs (exec_step generated x st)"

text \<open>
  Modelled from the spec: sections 4.2 and 7, the rebuild as one transaction.
\<close>

definition Rebuild :: "(nat \<Rightarrow> int) \<Rightarrow> nat \<Rightarrow> int \<Rightarrow> db \<Rightarrow> (store_error + unit) \<times> db" where
  "Rebuild generated healthy now d =
     (case run_steps generated healthy (rebuild_steps now d) (d, []) of
        Inl e \<Rightarrow> (Inl e, d)
      | Inr st \<Rightarrow> (Inr (), fst st))"

text \<open>
  Modelled from the spec: the store after a rebuild in which no statement fails.
\<close>

definition rebuilt :: "(nat \<Rightarrow> int) \<Rightarrow> int \<Rightarrow> db \<Rightarrow> db" where
  "rebuilt generated now d = fst (fold (exec_step generated) (rebuild_steps now d) (d, []))"

text \<open>
  Modelled from the spec: the rows a rebuild without failure leaves, written out. One index
  row per group, with the ids the store generated.
\<close>

definition index_row ::
    "(nat \<Rightarrow> int) \<Rightarrow> int \<Rightarrow> db \<Rightarrow> nat \<times> (string \<times> string) \<Rightarrow> block_trip_index" where
  "index_row generated now d ng =
     \<lparr>bti_id = generated (fst ng), bti_index_key = index_key (snd ng),
      bti_service_ids = group_service_ids d (snd ng),
      bti_stop_sequence_key = snd (snd ng), bti_created_at = now\<rparr>"

text \<open>
  Modelled from the spec: the BlockTripIndex rows of step 3, in the order of the groups.
\<close>

definition index_rows :: "(nat \<Rightarrow> int) \<Rightarrow> int \<Rightarrow> db \<Rightarrow> block_trip_index list" where
  "index_rows generated now d =
     map (index_row generated now d) (enumerate 0 (index_groups d))"

text \<open>
  Modelled from the spec: the id of each group's index row.
\<close>

definition group_ids :: "(nat \<Rightarrow> int) \<Rightarrow> db \<Rightarrow> ((string \<times> string) \<times> int) list" where
  "group_ids generated d =
     map (\<lambda>ng. (snd ng, generated (fst ng))) (enumerate 0 (index_groups d))"

text \<open>
  Modelled from the spec: the BlockTripEntry row of one numbered trip (steps 4 and 5).
\<close>

definition entry_row ::
    "((string \<times> string) \<times> int) list \<Rightarrow> db \<Rightarrow> string \<times> string \<times> nat \<times> trips_by_block_row
       \<Rightarrow> block_trip_entry" where
  "entry_row ids d row =
     \<lparr>bte_block_trip_index_id =
        (case map_of ids (trip_group d row) of None \<Rightarrow> 0 | Some index_id \<Rightarrow> index_id),
      bte_trip_id = tb_id (snd (snd (snd row))),
      bte_block_id = fst (trip_group d row),
      bte_service_id = fst (snd row),
      bte_block_trip_sequence = int (fst (snd (snd row)))\<rparr>"

text \<open>
  Modelled from the spec: the BlockTripEntry rows, in the order of the numbering.
\<close>

definition entry_rows :: "(nat \<Rightarrow> int) \<Rightarrow> db \<Rightarrow> block_trip_entry list" where
  "entry_rows generated d =
     map (entry_row (group_ids generated d) d) (block_trip_sequences d)"

text \<open>
  The trips of a (block, service identifier) pair.
\<close>

definition pair_trips :: "db \<Rightarrow> string \<Rightarrow> string \<Rightarrow> trip list" where
  "pair_trips d b s = [t \<leftarrow> trips d. t_block_id t = Some b \<and> t_service_id t = s]"

text \<open>
  The condition under which section 3 speaks of trips that never overlap: the active
  intervals of two different trips of the pair are disjoint.
\<close>

definition intervals_disjoint :: "db \<Rightarrow> string \<Rightarrow> string \<Rightarrow> bool" where
  "intervals_disjoint d b s \<longleftrightarrow>
     (\<forall>t1 \<in> set (pair_trips d b s). \<forall>t2 \<in> set (pair_trips d b s).
        t_id t1 \<noteq> t_id t2 \<longrightarrow>
          last_arrival d (t_id t1) < first_departure d (t_id t2)
          \<or> last_arrival d (t_id t2) < first_departure d (t_id t1))"

text \<open>
  No trip of the pair arrives for the last time before it first leaves.
\<close>

definition intervals_nonempty :: "db \<Rightarrow> string \<Rightarrow> string \<Rightarrow> bool" where
  "intervals_nonempty d b s \<longleftrightarrow>
     (\<forall>t \<in> set (pair_trips d b s). first_departure d (t_id t) \<le> last_arrival d (t_id t))"

section \<open>Example stores\<close>

text \<open>
  Two ways a store can generate the ids of a rebuild: \<open>ids_from a\<close> numbers the rows
  \<open>a\<close>, \<open>a + 1\<close>, \<dots>; a table that is numbered anew once emptied gives \<open>ids_from 1\<close> at
  every rebuild, one that never gives an id twice goes on where the last rebuild stopped.
\<close>

definition ids_from :: "int \<Rightarrow> nat \<Rightarrow> int" where
  "ids_from a k = a + int k"

text \<open>A stop served by 52 stop events of one trip, arriving at 100, 99, \<dots>, 49.\<close>

definition cap_db :: db where
  "cap_db =
     \<lparr> trips = [\<lparr>t_id = ''T1'', t_route_id = ''R1'', t_service_id = ''s1'', t_block_id = None\<rparr>],
       stop_times =
         map (\<lambda>i. \<lparr>st_trip_id = ''T1'', st_arrival_time = 100 - int i,
                    st_departure_time = 100 - int i, st_stop_id = ''S'',
                    st_stop_sequence = int i\<rparr>) [0..<52],
       routes = [\<lparr>r_id = ''R1'', r_agency_id = ''A''\<rparr>],
       calendars = [], calendar_dates = [],
       block_trip_indexes = [], block_trip_entries = [] \<rparr>"

text \<open>
  Four stop events at stop \<open>S\<close>: one arriving before the window and departing inside it, one
  inside, one after it, and one of another stop.
\<close>

definition window_db :: db where
  "window_db =
     \<lparr> trips = [\<lparr>t_id = ''T1'', t_route_id = ''R1'', t_service_id = ''s1'', t_block_id = None\<rparr>,
                \<lparr>t_id = ''T2'', t_route_id = ''R1'', t_service_id = ''s1'', t_block_id = None\<rparr>],
       stop_times =
         [\<lparr>st_trip_id = ''T2'', st_arrival_time = 250, st_departure_time = 260,
            st_stop_id = ''S'', st_stop_sequence = 1\<rparr>,
          \<lparr>st_trip_id = ''T1'', st_arrival_time = 190, st_departure_time = 200,
            st_stop_id = ''S'', st_stop_sequence = 1\<rparr>,
          \<lparr>st_trip_id = ''T1'', st_arrival_time = 400, st_departure_time = 410,
            st_stop_id = ''S'', st_stop_sequence = 3\<rparr>,
          \<lparr>st_trip_id = ''T1'', st_arrival_time = 220, st_departure_time = 230,
            st_stop_id = ''X'', st_stop_sequence = 2\<rparr>],
       routes = [\<lparr>r_id = ''R1'', r_agency_id = ''A''\<rparr>],
       calendars = [], calendar_dates = [],
       block_trip_indexes = [], block_trip_entries = [] \<rparr>"

text \<open>
  Service \<open>s1\<close> runs on Mondays of 2025 and is removed on Monday 2025-01-06; service \<open>s2\<close>
  has no calendar row and is added on that date. \<open>monday_strftime_w\<close> gives the weekday
  digit of the two Mondays used, as SQLite's \<^verbatim>\<open>STRFTIME('%w', \<dots>)\<close> does.
\<close>

definition calendar_db :: db where
  "calendar_db =
     \<lparr> trips = [], stop_times = [], routes = [],
       calendars =
         [\<lparr>c_id = ''s1'', c_monday = 1, c_tuesday = 0, c_wednesday = 0, c_thursday = 0,
            c_friday = 0, c_saturday = 0, c_sunday = 0,
            c_start_date = ''20250101'', c_end_date = ''20251231''\<rparr>],
       calendar_dates =
         [\<lparr>cd_service_id = ''s1'', cd_date = ''20250106'', cd_exception_type = 2\<rparr>,
          \<lparr>cd_service_id = ''s2'', cd_date = ''20250106'', cd_exception_type = 1\<rparr>],
       block_trip_indexes = [], block_trip_entries = [] \<rparr>"

definition monday_strftime_w :: "string \<Rightarrow> string option" where
  "monday_strftime_w text =
     (if text = ''2025-01-06'' \<or> text = ''2025-01-13'' then Some ''1'' else None)"

text \<open>
  Block \<open>B1\<close> under service \<open>s1\<close>: trip \<open>T1\<close> runs from 28800 to 29400 and trip \<open>T2\<close> from
  29500 to 30300 the other way, both on route \<open>R1\<close>; the block trip index is the one built
  at clock value 1000 with the ids 1 and 2.
\<close>

definition block_trip_T1 :: trip where
  "block_trip_T1 =
     \<lparr>t_id = ''T1'', t_route_id = ''R1'', t_service_id = ''s1'', t_block_id = Some ''B1''\<rparr>"

definition block_trip_T2 :: trip where
  "block_trip_T2 =
     \<lparr>t_id = ''T2'', t_route_id = ''R1'', t_service_id = ''s1'', t_block_id = Some ''B1''\<rparr>"

definition block_db :: db where
  "block_db =
     \<lparr> trips = [block_trip_T1, block_trip_T2],
       stop_times =
         [\<lparr>st_trip_id = ''T1'', st_arrival_time = 28800, st_departure_time = 28800,
            st_stop_id = ''A'', st_stop_sequence = 1\<rparr>,
          \<lparr>st_trip_id = ''T1'', st_arrival_time = 29400, st_departure_time = 29400,
            st_stop_id = ''B'', st_stop_sequence = 2\<rparr>,
          \<lparr>st_trip_id = ''T2'', st_arrival_time = 29500, st_departure_time = 29500,
            st_stop_id = ''B'', st_stop_sequence = 1\<rparr>,
          \<lparr>st_trip_id = ''T2'', st_arrival_time = 30300, st_departure_time = 30300,
            st_stop_id = ''A'', st_stop_sequence = 2\<rparr>],
       routes = [\<lparr>r_id = ''R1'', r_agency_id = ''A''\<rparr>],
       calendars = [], calendar_dates = [],
       block_trip_indexes =
         [\<lparr>bti_id = 1, bti_index_key = ''B1|A|B|'', bti_service_ids = ''s1'',
            bti_stop_sequence_key = ''A|B|'', bti_created_at = 1000\<rparr>,
          \<lparr>bti_id = 2, bti_index_key = ''B1|B|A|'', bti_service_ids = ''s1'',
            bti_stop_sequence_key = ''B|A|'', bti_created_at = 1000\<rparr>],
       block_trip_entries =
         [\<lparr>bte_block_trip_index_id = 1, bte_trip_id = ''T1'', bte_block_id = ''B1'',
            bte_service_id = ''s1'', bte_block_trip_sequence = 0\<rparr>,
          \<lparr>bte_block_trip_index_id = 2, bte_trip_id = ''T2'', bte_block_id = ''B1'',
            bte_service_id = ''s1'', bte_block_trip_sequence = 1\<rparr>] \<rparr>"




text \<open>
  A trip whose stop times run backwards in the stop sequence: at sequence 1 it arrives and
  leaves at 500, at sequence 2 at 100. Its minimum departure is 100 and its maximum arrival
  500.
\<close>

definition nonmonotone_trip :: trip where
  "nonmonotone_trip =
     \<lparr>t_id = ''N1'', t_route_id = ''R1'', t_service_id = ''s1'', t_block_id = Some ''B1''\<rparr>"

definition nonmonotone_db :: db where
  "nonmonotone_db =
     \<lparr> trips = [nonmonotone_trip],
       stop_times =
         [\<lparr>st_trip_id = ''N1'', st_arrival_time = 500, st_departure_time = 500,
            st_stop_id = ''A'', st_stop_sequence = 1\<rparr>,
          \<lparr>st_trip_id = ''N1'', st_arrival_time = 100, st_departure_time = 100,
            st_stop_id = ''B'', st_stop_sequence = 2\<rparr>],
       routes = [\<lparr>r_id = ''R1'', r_agency_id = ''A''\<rparr>],
       calendars = [], calendar_dates = [],
       block_trip_indexes =
         [\<lparr>bti_id = 1, bti_index_key = ''B1|A|B|'', bti_service_ids = ''s1'',
            bti_stop_sequence_key = ''A|B|'', bti_created_at = 1000\<rparr>],
       block_trip_entries =
         [\<lparr>bte_block_trip_index_id = 1, bte_trip_id = ''N1'', bte_block_id = ''B1'',
            bte_service_id = ''s1'', bte_block_trip_sequence = 0\<rparr>] \<rparr>"

text \<open>
  Two trips of block \<open>B1\<close> under service \<open>s1\<close> that leave at the same time, 100, and run
  until 300 and 400.
\<close>

definition overlap_db :: db where
  "overlap_db =
     \<lparr> trips = [\<lparr>t_id = ''U1'', t_route_id = ''R1'', t_service_id = ''s1'', t_block_id = Some ''B1''\<rparr>,
                \<lparr>t_id = ''U2'', t_route_id = ''R1'', t_service_id = ''s1'', t_block_id = Some ''B1''\<rparr>],
       stop_times =
         [\<lparr>st_trip_id = ''U1'', st_arrival_time = 100, st_departure_time = 100,
            st_stop_id = ''A'', st_stop_sequence = 1\<rparr>,
          \<lparr>st_trip_id = ''U1'', st_arrival_time = 300, st_departure_time = 300,
            st_stop_id = ''B'', st_stop_sequence = 2\<rparr>,
          \<lparr>st_trip_id = ''U2'', st_arrival_time = 100, st_departure_time = 100,
            st_stop_id = ''A'', st_stop_sequence = 1\<rparr>,
          \<lparr>st_trip_id = ''U2'', st_arrival_time = 400, st_departure_time = 400,
            st_stop_id = ''B'', st_stop_sequence = 2\<rparr>],
       routes = [\<lparr>r_id = ''R1'', r_agency_id = ''A''\<rparr>],
       calendars = [], calendar_dates = [],
       block_trip_indexes = [], block_trip_entries = [] \<rparr>"

section \<open>Sorting and limits\<close>

lemma sorted_map_take:
  "sorted (map f xs) \<Longrightarrow> sorted (map f (take n xs))"
  by (simp add: take_map [symmetric] sorted_wrt_take)

lemma take_le_drop_sorted:
  assumes "sorted (map f xs)" and "x \<in> set (take n xs)" and "y \<in> set (drop n xs)"
  shows "f x \<le> f y"
proof -
  have "sorted (map f (take n xs @ drop n xs))"
    using assms(1) by simp
  then show ?thesis
    using assms(2,3) unfolding map_append sorted_append by auto
qed

lemma mset_minus_take:
  "mset xs - mset (take n xs) = mset (drop n xs)"
proof -
  have "mset xs = mset (take n xs) + mset (drop n xs)"
    by (metis append_take_drop_id mset_append)
  then show ?thesis by simp
qed

section \<open>The cap on arrivals and departures\<close>

text \<open>
  C10. For every stop id, GetArrivalsAndDeparturesForStop returns at most 50 rows, exactly
  50 when the stop has more matching rows; they are rows of the join, in ascending order of
  arrival time, and every matching row that is left out arrives no earlier than every
  returned row: the result is the first 50 in arrival-time order.
\<close>

theorem GetArrivalsAndDeparturesForStop_limit_50:
  "length (GetArrivalsAndDeparturesForStop d stop_id)
     = min 50 (length (arrivals_and_departures_rows d stop_id))
   \<and> sorted (map row_arrival_time (GetArrivalsAndDeparturesForStop d stop_id))
   \<and> mset (GetArrivalsAndDeparturesForStop d stop_id) \<subseteq># mset (arrivals_and_departures_rows d stop_id)
   \<and> (\<forall>x \<in> set (GetArrivalsAndDeparturesForStop d stop_id).
        \<forall>y \<in># mset (arrivals_and_departures_rows d stop_id)
                 - mset (GetArrivalsAndDeparturesForStop d stop_id).
          row_arrival_time x \<le> row_arrival_time y)"
proof -
  let ?rows = "arrivals_and_departures_rows d stop_id"
  let ?s = "sort_key row_arrival_time ?rows"
  have res: "GetArrivalsAndDeparturesForStop d stop_id = take 50 ?s"
    by (simp add: GetArrivalsAndDeparturesForStop_def)
  have srt: "sorted (map row_arrival_time ?s)"
    by simp
  have len: "length (take 50 ?s) = min 50 (length ?rows)"
    by simp
  have sub: "mset (take 50 ?s) \<subseteq># mset ?rows"
  proof -
    have "mset (take 50 ?s) \<subseteq># mset (take 50 ?s) + mset (drop 50 ?s)"
      by simp
    also have "\<dots> = mset ?s"
      by (metis append_take_drop_id mset_append)
    finally show ?thesis by simp
  qed
  have rest: "mset ?rows - mset (take 50 ?s) = mset (drop 50 ?s)"
    using mset_minus_take [of ?s 50] by simp
  have cut: "\<forall>x \<in> set (take 50 ?s). \<forall>y \<in># mset ?rows - mset (take 50 ?s).
               row_arrival_time x \<le> row_arrival_time y"
    unfolding rest using take_le_drop_sorted [OF srt] by auto
  show ?thesis
    unfolding res using len sorted_map_take [OF srt] sub cut by blast
qed

theorem GetArrivalsAndDeparturesForStop_limit_50_witness:
  "length (arrivals_and_departures_rows cap_db ''S'') = 52
   \<and> length (GetArrivalsAndDeparturesForStop cap_db ''S'') = 50
   \<and> map row_arrival_time (GetArrivalsAndDeparturesForStop cap_db ''S'') = map int [49..<99]
   \<and> sorted (map row_arrival_time (GetArrivalsAndDeparturesForStop cap_db ''S''))
   \<and> mset (GetArrivalsAndDeparturesForStop cap_db ''S'')
        \<subseteq># mset (arrivals_and_departures_rows cap_db ''S'')"
proof -
  have n: "length (arrivals_and_departures_rows cap_db ''S'') = 52"
    by code_simp
  have v: "map row_arrival_time (GetArrivalsAndDeparturesForStop cap_db ''S'') = map int [49..<99]"
    by code_simp
  show ?thesis
    using n v GetArrivalsAndDeparturesForStop_limit_50 [of cap_db "''S''"] by simp
qed

section \<open>The schedule window\<close>

lemma key_lookup_unique:
  "distinct (map f ts) \<Longrightarrow> k \<in> set (map f ts) \<Longrightarrow> \<exists>t. [t \<leftarrow> ts. k = f t] = [t]"
proof (induction ts)
  case Nil
  then show ?case by simp
next
  case (Cons a ts)
  show ?case
  proof (cases "k = f a")
    case True
    then have "k \<notin> set (map f ts)" using Cons.prems(1) by simp
    then have "[t \<leftarrow> ts. k = f t] = []" by (auto simp: filter_empty_conv)
    with True show ?thesis by simp
  next
    case False
    then show ?thesis using Cons by auto
  qed
qed

lemma join_one_fst:
  assumes "\<exists>t. [t \<leftarrow> ts. k = f t] = [t]"
  shows "map fst (concat (map (\<lambda>t. if k = f t then (if P then [(st, t)] else []) else []) ts))
         = (if P then [st] else [])"
proof -
  have "concat (map (\<lambda>t. if k = f t then (if P then [(st, t)] else []) else []) ts)
        = (if P then map (\<lambda>t. (st, t)) [t \<leftarrow> ts. k = f t] else [])"
    by (induction ts) auto
  moreover obtain t where "[t \<leftarrow> ts. k = f t] = [t]" using assms by blast
  ultimately show ?thesis by simp
qed

lemma window_rows_fst_gen:
  assumes one: "\<And>st. st \<in> set sts \<Longrightarrow> \<exists>t. [t \<leftarrow> ts. st_trip_id st = t_id t] = [t]"
  shows "map fst (concat (map (\<lambda>st. concat (map (\<lambda>t. if st_trip_id st = t_id t
                  then (if P st then [(st, t)] else []) else []) ts)) sts))
         = filter P sts"
  using one
proof (induction sts)
  case Nil
  then show ?case by simp
next
  case (Cons a sts)
  have "\<exists>t. [t \<leftarrow> ts. st_trip_id a = t_id t] = [t]" using Cons.prems by simp
  from join_one_fst [OF this, of "P a" a]
  have h: "map fst (concat (map (\<lambda>t. if st_trip_id a = t_id t
                  then (if P a then [(a, t)] else []) else []) ts))
         = (if P a then [a] else [])" .
  have ih: "map fst (concat (map (\<lambda>st. concat (map (\<lambda>t. if st_trip_id st = t_id t
                  then (if P st then [(st, t)] else []) else []) ts)) sts))
         = filter P sts"
    using Cons by simp
  show ?case unfolding list.map concat.simps map_append h ih by simp
qed

lemma window_rows_fst:
  assumes "trips_key d" and "stop_times_trip_fk d"
  shows "map fst (stop_times_in_window_rows d stop_id ws we)
         = [st \<leftarrow> stop_times d. st_stop_id st = stop_id \<and> in_window ws we st]"
proof -
  have one: "\<And>st. st \<in> set (stop_times d) \<Longrightarrow> \<exists>t. [t \<leftarrow> trips d. st_trip_id st = t_id t] = [t]"
    using assms key_lookup_unique [of t_id "trips d"]
    unfolding trips_key_def stop_times_trip_fk_def by blast
  show ?thesis
    unfolding stop_times_in_window_rows_def
    using window_rows_fst_gen [of "stop_times d" "trips d"
            "\<lambda>st. st_stop_id st = stop_id \<and> in_window ws we st", OF one]
    by simp
qed

text \<open>
  C5. For every stop id and closed window, GetStopTimesForStopInWindow returns exactly the
  stop events of that stop whose arrival time or departure time lies within the window,
  endpoints included, each once, in ascending order of arrival time. The store is one in
  which trip identifiers are a key and every stop event belongs to a stored trip.
\<close>

theorem GetStopTimesForStopInWindow_exact:
  assumes "trips_key d" and "stop_times_trip_fk d"
  shows "mset (map fst (GetStopTimesForStopInWindow d stop_id window_start window_end))
           = mset [st \<leftarrow> stop_times d.
                     st_stop_id st = stop_id
                     \<and> (window_start \<le> st_arrival_time st \<and> st_arrival_time st \<le> window_end
                        \<or> window_start \<le> st_departure_time st \<and> st_departure_time st \<le> window_end)]
         \<and> sorted (map st_arrival_time
                     (map fst (GetStopTimesForStopInWindow d stop_id window_start window_end)))"
proof -
  let ?rows = "stop_times_in_window_rows d stop_id window_start window_end"
  have q: "GetStopTimesForStopInWindow d stop_id window_start window_end
           = sort_key (\<lambda>row. st_arrival_time (fst row)) ?rows"
    by (simp add: GetStopTimesForStopInWindow_def)
  have "mset (map fst (sort_key (\<lambda>row. st_arrival_time (fst row)) ?rows)) = mset (map fst ?rows)"
    by simp
  also have "\<dots> = mset [st \<leftarrow> stop_times d. st_stop_id st = stop_id \<and> in_window window_start window_end st]"
    using window_rows_fst [OF assms] by simp
  finally have m: "mset (map fst (sort_key (\<lambda>row. st_arrival_time (fst row)) ?rows))
     = mset [st \<leftarrow> stop_times d. st_stop_id st = stop_id \<and> in_window window_start window_end st]" .
  have s: "sorted (map st_arrival_time (map fst (sort_key (\<lambda>row. st_arrival_time (fst row)) ?rows)))"
    using sorted_sort_key [of "\<lambda>row. st_arrival_time (fst row)" ?rows] by (simp add: comp_def)
  show ?thesis unfolding q using m s by (simp add: in_window_def)
qed

theorem GetStopTimesForStopInWindow_exact_witness:
  "trips_key window_db \<and> stop_times_trip_fk window_db
   \<and> map (\<lambda>row. (st_trip_id (fst row), st_arrival_time (fst row)))
        (GetStopTimesForStopInWindow window_db ''S'' 200 250) = [(''T1'', 190), (''T2'', 250)]
   \<and> mset (map fst (GetStopTimesForStopInWindow window_db ''S'' 200 250))
       = mset [st \<leftarrow> stop_times window_db.
                 st_stop_id st = ''S''
                 \<and> (200 \<le> st_arrival_time st \<and> st_arrival_time st \<le> 250
                    \<or> 200 \<le> st_departure_time st \<and> st_departure_time st \<le> 250)]"
proof -
  have k: "trips_key window_db"
    by code_simp
  have f: "stop_times_trip_fk window_db"
    by code_simp
  have v: "map (\<lambda>row. (st_trip_id (fst row), st_arrival_time (fst row)))
             (GetStopTimesForStopInWindow window_db ''S'' 200 250) = [(''T1'', 190), (''T2'', 250)]"
    by code_simp
  show ?thesis
    using k f v GetStopTimesForStopInWindow_exact [OF k f, of "''S''" 200 250] by blast
qed

section \<open>Active service ids\<close>

lemma removed_not_added:
  assumes "calendar_dates_key d"
    and "x \<in> set (calendar_dates d)" and "cd_exception_type x = 2"
  shows "cd_service_id x \<notin> set (added_services d (cd_date x))"
proof
  assume "cd_service_id x \<in> set (added_services d (cd_date x))"
  then obtain y where y: "y \<in> set (calendar_dates d)" "cd_service_id y = cd_service_id x"
      "cd_date y = cd_date x" "cd_exception_type y = 1"
    by (auto simp: added_services_def)
  have "inj_on (\<lambda>x. (cd_service_id x, cd_date x)) (set (calendar_dates d))"
    using assms(1) by (simp add: calendar_dates_key_def distinct_map)
  then have "x = y" using y assms(2) by (auto dest: inj_onD)
  then show False using y(4) assms(3) by simp
qed

text \<open>
  C3. For every date and service id, if calendar_dates holds a row for that service and
  date with exception type 2 (removed), the service id is not in the result of
  GetActiveServiceIDsForDate, whatever its calendar row says. The store keeps the key of
  calendar_dates, one row per (service id, date).
\<close>

theorem removed_service_not_active:
  assumes "calendar_dates_key d"
    and "x \<in> set (calendar_dates d)"
    and "cd_service_id x = s" and "cd_date x = date" and "cd_exception_type x = 2"
  shows "s \<notin> set (GetActiveServiceIDsForDate strftime_w d date)"
proof -
  have "s \<in> set (removed_services d date)"
    using assms(2-5) by (auto simp: removed_services_def)
  moreover have "s \<notin> set (added_services d date)"
    using removed_not_added [OF assms(1,2,5)] assms(3,4) by simp
  ultimately show ?thesis by (simp add: GetActiveServiceIDsForDate_def)
qed

theorem removed_service_not_active_witness:
  "calendar_dates_key calendar_db
   \<and> \<lparr>cd_service_id = ''s1'', cd_date = ''20250106'', cd_exception_type = 2\<rparr>
       \<in> set (calendar_dates calendar_db)
   \<and> ''s1'' \<in> set (base_services monday_strftime_w calendar_db ''20250106'')
   \<and> ''s1'' \<notin> set (GetActiveServiceIDsForDate monday_strftime_w calendar_db ''20250106'')
   \<and> ''s1'' \<in> set (GetActiveServiceIDsForDate monday_strftime_w calendar_db ''20250113'')"
proof -
  let ?x = "\<lparr>cd_service_id = ''s1'', cd_date = ''20250106'', cd_exception_type = 2\<rparr>"
  have k: "calendar_dates_key calendar_db"
    by code_simp
  have m: "?x \<in> set (calendar_dates calendar_db)"
    by code_simp
  have b: "''s1'' \<in> set (base_services monday_strftime_w calendar_db ''20250106'')"
    by code_simp
  have n: "''s1'' \<in> set (GetActiveServiceIDsForDate monday_strftime_w calendar_db ''20250113'')"
    by code_simp
  have "''s1'' \<notin> set (GetActiveServiceIDsForDate monday_strftime_w calendar_db ''20250106'')"
    using removed_service_not_active [OF k m, of "''s1''" "''20250106''" monday_strftime_w]
    by simp
  then show ?thesis using k m b n by blast
qed

text \<open>
  C4. For every date and service id, if calendar_dates holds a row for that service and
  date with exception type 1 (added), the service id is in the result of
  GetActiveServiceIDsForDate, with or without a calendar row and whatever its range.
\<close>

theorem added_service_active:
  assumes "x \<in> set (calendar_dates d)"
    and "cd_service_id x = s" and "cd_date x = date" and "cd_exception_type x = 1"
  shows "s \<in> set (GetActiveServiceIDsForDate strftime_w d date)"
proof -
  have "s \<in> set (added_services d date)"
    using assms by (auto simp: added_services_def)
  then show ?thesis by (simp add: GetActiveServiceIDsForDate_def)
qed

theorem added_service_active_witness:
  "\<lparr>cd_service_id = ''s2'', cd_date = ''20250106'', cd_exception_type = 1\<rparr>
       \<in> set (calendar_dates calendar_db)
   \<and> ''s2'' \<notin> set (map c_id (calendars calendar_db))
   \<and> ''s2'' \<in> set (GetActiveServiceIDsForDate monday_strftime_w calendar_db ''20250106'')"
proof -
  let ?x = "\<lparr>cd_service_id = ''s2'', cd_date = ''20250106'', cd_exception_type = 1\<rparr>"
  have m: "?x \<in> set (calendar_dates calendar_db)"
    by code_simp
  have c: "''s2'' \<notin> set (map c_id (calendars calendar_db))"
    by code_simp
  have "''s2'' \<in> set (GetActiveServiceIDsForDate monday_strftime_w calendar_db ''20250106'')"
    using added_service_active [OF m, of "''s2''" "''20250106''" monday_strftime_w]
    by simp
  then show ?thesis using m c by blast
qed

section \<open>The active interval of a trip\<close>

lemma fold_min_case:
  "(case xs of [] \<Rightarrow> None | x # r \<Rightarrow> Some (fold min r x))
     = (if xs = [] then None else Some (Min (set xs)))" for xs :: "int list"
proof (cases xs)
  case Nil
  then show ?thesis by simp
next
  case (Cons a r)
  have "fold min r a = Min (set (a # r))"
    by (rule Min.set_eq_fold [symmetric])
  then show ?thesis using Cons by simp
qed

lemma fold_max_case:
  "(case xs of [] \<Rightarrow> None | x # r \<Rightarrow> Some (fold max r x))
     = (if xs = [] then None else Some (Max (set xs)))" for xs :: "int list"
proof (cases xs)
  case Nil
  then show ?thesis by simp
next
  case (Cons a r)
  have "fold max r a = Max (set (a # r))"
    by (rule Max.set_eq_fold [symmetric])
  then show ?thesis using Cons by simp
qed

lemma comprehension_map_filter:
  "concat (map (\<lambda>x. if P x then [f x] else []) xs) = map f (filter P xs)"
  by (induction xs) simp_all

lemma set_trip_stop_times:
  "set (trip_stop_times d tid) = {st \<in> set (stop_times d). st_trip_id st = tid}"
  by (simp add: trip_stop_times_def)

lemma min_stop_sequence_eq:
  "min_stop_sequence d tid =
     (if trip_stop_times d tid = [] then None
      else Some (Min (st_stop_sequence ` set (trip_stop_times d tid))))"
  unfolding min_stop_sequence_def fold_min_case comprehension_map_filter
  by (simp add: trip_stop_times_def)

lemma max_stop_sequence_eq:
  "max_stop_sequence d tid =
     (if trip_stop_times d tid = [] then None
      else Some (Max (st_stop_sequence ` set (trip_stop_times d tid))))"
  unfolding max_stop_sequence_def fold_max_case comprehension_map_filter
  by (simp add: trip_stop_times_def)

lemma first_departure_eq:
  "first_departure d tid =
     (if trip_stop_times d tid = [] then None
      else Some (Min (st_departure_time ` set (trip_stop_times d tid))))"
  unfolding first_departure_def fold_min_case by simp

lemma last_arrival_eq:
  "last_arrival d tid =
     (if trip_stop_times d tid = [] then None
      else Some (Max (st_arrival_time ` set (trip_stop_times d tid))))"
  unfolding last_arrival_def fold_max_case by simp

lemma first_stop_departure:
  assumes mono: "stop_times_monotone d"
    and f: "f \<in> set (stop_times d)" "st_trip_id f = tid"
    and m: "Some (st_stop_sequence f) = min_stop_sequence d tid"
  shows "first_departure d tid = Some (st_departure_time f)"
proof -
  let ?S = "set (trip_stop_times d tid)"
  have fS: "f \<in> ?S" using f by (simp add: set_trip_stop_times)
  then have ne: "trip_stop_times d tid \<noteq> []" by auto
  have seq: "st_stop_sequence f = Min (st_stop_sequence ` ?S)"
    using m ne by (simp add: min_stop_sequence_eq)
  have "st_departure_time f \<le> st_departure_time b" if "b \<in> ?S" for b
  proof -
    have "st_stop_sequence f \<le> st_stop_sequence b"
      unfolding seq using that by (intro Min_le) auto
    moreover have "b \<in> set (stop_times d)" "st_trip_id f = st_trip_id b"
      using that f by (simp_all add: set_trip_stop_times)
    ultimately show ?thesis
      using mono f(1) unfolding stop_times_monotone_def by blast
  qed
  then have "Min (st_departure_time ` ?S) = st_departure_time f"
    using fS by (intro Min_eqI) auto
  then show ?thesis using ne by (simp add: first_departure_eq)
qed

lemma last_stop_arrival:
  assumes mono: "stop_times_monotone d"
    and l: "l \<in> set (stop_times d)" "st_trip_id l = tid"
    and m: "Some (st_stop_sequence l) = max_stop_sequence d tid"
  shows "last_arrival d tid = Some (st_arrival_time l)"
proof -
  let ?S = "set (trip_stop_times d tid)"
  have lS: "l \<in> ?S" using l by (simp add: set_trip_stop_times)
  then have ne: "trip_stop_times d tid \<noteq> []" by auto
  have seq: "st_stop_sequence l = Max (st_stop_sequence ` ?S)"
    using m ne by (simp add: max_stop_sequence_eq)
  have "st_arrival_time b \<le> st_arrival_time l" if "b \<in> ?S" for b
  proof -
    have "st_stop_sequence b \<le> st_stop_sequence l"
      unfolding seq using that by (intro Max_ge) auto
    moreover have "b \<in> set (stop_times d)" "st_trip_id b = st_trip_id l"
      using that l by (simp_all add: set_trip_stop_times)
    ultimately show ?thesis
      using mono l(1) unfolding stop_times_monotone_def by blast
  qed
  then have "Max (st_arrival_time ` ?S) = st_arrival_time l"
    using lS by (intro Max_eqI) auto
  then show ?thesis using ne by (simp add: last_arrival_eq)
qed

lemma first_stop_exists:
  assumes "first_departure d tid = Some fd"
  shows "\<exists>f \<in> set (stop_times d). st_trip_id f = tid
           \<and> Some (st_stop_sequence f) = min_stop_sequence d tid"
proof -
  let ?S = "set (trip_stop_times d tid)"
  have ne: "trip_stop_times d tid \<noteq> []"
    using assms by (auto simp: first_departure_eq split: if_splits)
  then have "Min (st_stop_sequence ` ?S) \<in> st_stop_sequence ` ?S"
    by (intro Min_in) auto
  then obtain f where "f \<in> ?S" "st_stop_sequence f = Min (st_stop_sequence ` ?S)"
    by auto
  then show ?thesis using ne by (auto simp: min_stop_sequence_eq set_trip_stop_times)
qed

lemma last_stop_exists:
  assumes "last_arrival d tid = Some la"
  shows "\<exists>l \<in> set (stop_times d). st_trip_id l = tid
           \<and> Some (st_stop_sequence l) = max_stop_sequence d tid"
proof -
  let ?S = "set (trip_stop_times d tid)"
  have ne: "trip_stop_times d tid \<noteq> []"
    using assms by (auto simp: last_arrival_eq split: if_splits)
  then have "Max (st_stop_sequence ` ?S) \<in> st_stop_sequence ` ?S"
    by (intro Max_in) auto
  then obtain l where "l \<in> ?S" "st_stop_sequence l = Max (st_stop_sequence ` ?S)"
    by auto
  then show ?thesis using ne by (auto simp: max_stop_sequence_eq set_trip_stop_times)
qed

lemma in_active_trip_in_block_rows:
  "(t, f, l) \<in> set (active_trip_in_block_rows d block_id service_ids current_time) \<longleftrightarrow>
     t \<in> set (trips d)
     \<and> f \<in> set (stop_times d) \<and> t_id t = st_trip_id f
     \<and> Some (st_stop_sequence f) = min_stop_sequence d (t_id t)
     \<and> l \<in> set (stop_times d) \<and> t_id t = st_trip_id l
     \<and> Some (st_stop_sequence l) = max_stop_sequence d (t_id t)
     \<and> t_block_id t = Some block_id
     \<and> t_service_id t \<in> set service_ids
     \<and> st_departure_time f \<le> current_time
     \<and> st_arrival_time l \<ge> current_time"
  unfolding active_trip_in_block_rows_def by auto


lemma block_row_is_match:
  assumes mono: "stop_times_monotone d"
    and row: "(t, f, l) \<in> set (active_trip_in_block_rows d block_id service_ids current_time)"
  shows "block_match d block_id service_ids current_time t (st_departure_time f)"
proof -
  note r = row [unfolded in_active_trip_in_block_rows]
  have fd: "first_departure d (t_id t) = Some (st_departure_time f)"
    using first_stop_departure [OF mono, of f "t_id t"] r by metis
  have la: "last_arrival d (t_id t) = Some (st_arrival_time l)"
    using last_stop_arrival [OF mono, of l "t_id t"] r by metis
  show ?thesis
    unfolding block_match_def using r fd la by simp
qed

lemma block_match_has_row:
  assumes mono: "stop_times_monotone d"
    and m: "block_match d block_id service_ids current_time t fd"
  shows "\<exists>f l. (t, f, l) \<in> set (active_trip_in_block_rows d block_id service_ids current_time)
           \<and> st_departure_time f = fd"
proof -
  note b = m [unfolded block_match_def]
  from b obtain la where la: "last_arrival d (t_id t) = Some la" "current_time \<le> la"
    by (auto split: option.splits)
  from b have fd: "first_departure d (t_id t) = Some fd" by simp
  from first_stop_exists [OF fd] obtain f where f: "f \<in> set (stop_times d)"
      "st_trip_id f = t_id t" "Some (st_stop_sequence f) = min_stop_sequence d (t_id t)"
    by blast
  from last_stop_exists [OF la(1)] obtain l where l: "l \<in> set (stop_times d)"
      "st_trip_id l = t_id t" "Some (st_stop_sequence l) = max_stop_sequence d (t_id t)"
    by blast
  have fdeq: "st_departure_time f = fd"
    using first_stop_departure [OF mono f] fd by simp
  have laeq: "st_arrival_time l = la"
    using last_stop_arrival [OF mono l] la(1) by simp
  have "(t, f, l) \<in> set (active_trip_in_block_rows d block_id service_ids current_time)"
    unfolding in_active_trip_in_block_rows using b f l fdeq laeq la(2) by simp
  then show ?thesis using fdeq by blast
qed



lemma in_order_by_limit_1:
  "r \<in> set (order_by_limit_1 key rows) \<longleftrightarrow> r \<in> set rows \<and> (\<forall>r' \<in> set rows. key r \<le> key r')"
  by (simp add: order_by_limit_1_def)

lemma order_by_limit_1_empty:
  "order_by_limit_1 key rows = [] \<longleftrightarrow> rows = []"
proof
  assume e: "order_by_limit_1 key rows = []"
  show "rows = []"
  proof (rule ccontr)
    assume ne: "rows \<noteq> []"
    then have "Min (key ` set rows) \<in> key ` set rows"
      by (intro Min_in) auto
    then obtain r where r: "r \<in> set rows" "key r = Min (key ` set rows)"
      by auto
    have "\<forall>r' \<in> set rows. key r \<le> key r'"
      unfolding r(2) by (auto intro: Min_le)
    then have "r \<in> set (order_by_limit_1 key rows)"
      using r(1) by (simp add: in_order_by_limit_1)
    then show False using e by simp
  qed
next
  assume "rows = []"
  then show "order_by_limit_1 key rows = []" by (simp add: order_by_limit_1_def)
qed

lemma block_stop_match_rows:
  "block_stop_match d block_id service_ids current_time t fd \<longleftrightarrow>
     (\<exists>f l. (t, f, l) \<in> set (active_trip_in_block_rows d block_id service_ids current_time)
        \<and> st_departure_time f = fd)"
  unfolding in_active_trip_in_block_rows block_stop_match_def first_stop_def last_stop_def
  by (auto; metis)


lemma block_stop_match_min_max:
  assumes "block_stop_match d block_id service_ids current_time t fd"
  shows "\<exists>fd'. fd' \<le> fd \<and> block_match d block_id service_ids current_time t fd'"
proof -
  let ?S = "set (trip_stop_times d (t_id t))"
  note m = assms [unfolded block_stop_match_def first_stop_def last_stop_def]
  from m obtain f where f: "f \<in> set (stop_times d)" "st_trip_id f = t_id t"
      "st_departure_time f = fd"
    by blast
  from m obtain l where l: "l \<in> set (stop_times d)" "st_trip_id l = t_id t"
      "current_time \<le> st_arrival_time l"
    by blast
  have fS: "f \<in> ?S" and lS: "l \<in> ?S"
    using f l by (simp_all add: set_trip_stop_times)
  then have ne: "trip_stop_times d (t_id t) \<noteq> []" by auto
  have lo: "Min (st_departure_time ` ?S) \<le> fd"
    using fS f(3) by (auto intro: Min_le)
  have hi: "current_time \<le> Max (st_arrival_time ` ?S)"
    using lS l(3) by (auto intro: order_trans [OF _ Max_ge])
  have "block_match d block_id service_ids current_time t (Min (st_departure_time ` ?S))"
    unfolding block_match_def using m ne lo hi
    by (simp add: first_departure_eq last_arrival_eq)
  then show ?thesis using lo by blast
qed


lemma block_stop_match_monotone:
  assumes "stop_times_monotone d"
  shows "block_stop_match d block_id service_ids current_time t fd
           \<longleftrightarrow> block_match d block_id service_ids current_time t fd"
  unfolding block_stop_match_rows
  using block_row_is_match [OF assms] block_match_has_row [OF assms] by blast


lemma rows_empty_iff:
  "rows = [] \<longleftrightarrow> (\<forall>t f l. (t, f, l) \<notin> set rows)"
  by (cases rows) auto

lemma GetActiveTripInBlockAtTime_returns:
  "trip_id \<in> set (GetActiveTripInBlockAtTime d block_id service_ids current_time) \<longleftrightarrow>
     (\<exists>t fd. t_id t = trip_id
        \<and> block_stop_match d block_id service_ids current_time t fd
        \<and> (\<forall>t' fd'. block_stop_match d block_id service_ids current_time t' fd'
              \<longrightarrow> fd \<le> fd'))"
  (is "?L \<longleftrightarrow> ?R")
proof
  let ?rows = "active_trip_in_block_rows d block_id service_ids current_time"
  assume ?L
  then obtain r where r: "r \<in> set ?rows"
      "\<forall>r' \<in> set ?rows. row_first_departure r \<le> row_first_departure r'"
      "t_id (fst r) = trip_id"
    by (auto simp: GetActiveTripInBlockAtTime_def in_order_by_limit_1)
  obtain t f l where rt: "r = (t, f, l)" by (cases r) auto
  have sm: "block_stop_match d block_id service_ids current_time t (st_departure_time f)"
    unfolding block_stop_match_rows using r(1) rt by blast
  have least: "st_departure_time f \<le> fd'"
    if "block_stop_match d block_id service_ids current_time t' fd'" for t' fd'
  proof -
    from that obtain f' l' where "(t', f', l') \<in> set ?rows" "st_departure_time f' = fd'"
      unfolding block_stop_match_rows by blast
    then show ?thesis using r(2) rt by (auto simp: row_first_departure_def)
  qed
  show ?R using sm least r(3) rt by auto
next
  let ?rows = "active_trip_in_block_rows d block_id service_ids current_time"
  assume ?R
  then obtain t fd where t: "t_id t = trip_id"
      "block_stop_match d block_id service_ids current_time t fd"
      "\<forall>t' fd'. block_stop_match d block_id service_ids current_time t' fd' \<longrightarrow> fd \<le> fd'"
    by blast
  from t(2) obtain f l where row: "(t, f, l) \<in> set ?rows" "st_departure_time f = fd"
    unfolding block_stop_match_rows by blast
  have "row_first_departure (t, f, l) \<le> row_first_departure r'" if "r' \<in> set ?rows" for r'
  proof -
    obtain t' f' l' where r': "r' = (t', f', l')" by (cases r') auto
    have "block_stop_match d block_id service_ids current_time t' (st_departure_time f')"
      unfolding block_stop_match_rows using that r' by blast
    then show ?thesis using t(3) row(2) r' by (auto simp: row_first_departure_def)
  qed
  then have "(t, f, l) \<in> set (order_by_limit_1 row_first_departure ?rows)"
    using row(1) by (simp add: in_order_by_limit_1)
  then have "t_id (fst (t, f, l)) \<in> (\<lambda>row. t_id (fst row)) `
               set (order_by_limit_1 row_first_departure ?rows)"
    by (rule imageI)
  then show ?L using t(1) by (simp add: GetActiveTripInBlockAtTime_def)
qed

lemma GetActiveTripInBlockAtTime_none:
  "GetActiveTripInBlockAtTime d block_id service_ids current_time = [] \<longleftrightarrow>
     (\<forall>t fd. \<not> block_stop_match d block_id service_ids current_time t fd)"
proof -
  have "GetActiveTripInBlockAtTime d block_id service_ids current_time = [] \<longleftrightarrow>
          active_trip_in_block_rows d block_id service_ids current_time = []"
    by (simp add: GetActiveTripInBlockAtTime_def order_by_limit_1_empty)
  then show ?thesis
    unfolding block_stop_match_rows
    using rows_empty_iff [of "active_trip_in_block_rows d block_id service_ids current_time"]
    by blast
qed



section \<open>The active trip of a block\<close>

text \<open>
  C1, as the query has it. For every block id, time and list of active service ids,
  GetActiveTripInBlockAtTime can return a trip id exactly when the trip is of the block,
  its service id is active, the departure time at its lowest stop sequence is at most the
  time and the arrival time at its highest stop sequence is at least the time, and no such
  trip leaves its first stop earlier; it returns none exactly when there is no such trip.
  A returned trip always has its minimum departure at most the time and its maximum
  arrival at least the time. Where the stop times are non-decreasing by sequence within a
  trip, the first stop's departure is the minimum departure and the last stop's arrival
  the maximum arrival, and the matching trips are those of the claim. With \<open>T1\<close> from 28800
  to 29400 and \<open>T2\<close> from 29500 to 30300 in block \<open>B1\<close> under the active service \<open>s1\<close>, the
  query returns \<open>T1\<close> at 29000, \<open>T2\<close> at 29600 and none at 29450.
\<close>

theorem GetActiveTripInBlockAtTime_first_stop_match:
  "(trip_id \<in> set (GetActiveTripInBlockAtTime d block_id service_ids current_time) \<longleftrightarrow>
      (\<exists>t fd. t_id t = trip_id
         \<and> block_stop_match d block_id service_ids current_time t fd
         \<and> (\<forall>t' fd'. block_stop_match d block_id service_ids current_time t' fd'
               \<longrightarrow> fd \<le> fd')))
   \<and> (GetActiveTripInBlockAtTime d block_id service_ids current_time = [] \<longleftrightarrow>
        (\<forall>t fd. \<not> block_stop_match d block_id service_ids current_time t fd))
   \<and> (block_stop_match d block_id service_ids current_time t fd \<longrightarrow>
        (\<exists>fd'. fd' \<le> fd \<and> block_match d block_id service_ids current_time t fd'))
   \<and> (stop_times_monotone d \<longrightarrow>
        (\<forall>t fd. block_stop_match d block_id service_ids current_time t fd
                 \<longleftrightarrow> block_match d block_id service_ids current_time t fd))
   \<and> GetActiveTripInBlockAtTime block_db ''B1'' [''s1''] 29000 = [''T1'']
   \<and> GetActiveTripInBlockAtTime block_db ''B1'' [''s1''] 29600 = [''T2'']
   \<and> GetActiveTripInBlockAtTime block_db ''B1'' [''s1''] 29450 = []"
proof -
  have a: "GetActiveTripInBlockAtTime block_db ''B1'' [''s1''] 29000 = [''T1'']"
    by code_simp
  have b: "GetActiveTripInBlockAtTime block_db ''B1'' [''s1''] 29600 = [''T2'']"
    by code_simp
  have c: "GetActiveTripInBlockAtTime block_db ''B1'' [''s1''] 29450 = []"
    by code_simp
  show ?thesis
    using GetActiveTripInBlockAtTime_returns [of trip_id d block_id service_ids current_time]
      GetActiveTripInBlockAtTime_none [of d block_id service_ids current_time]
      block_stop_match_min_max [of d block_id service_ids current_time t fd]
      block_stop_match_monotone [of d block_id service_ids current_time]
      a b c
    by blast
qed

theorem GetActiveTripInBlockAtTime_first_stop_match_witness:
  "stop_times_monotone block_db
   \<and> block_stop_match block_db ''B1'' [''s1''] 29000 block_trip_T1 28800
   \<and> block_match block_db ''B1'' [''s1''] 29000 block_trip_T1 28800
   \<and> ''T1'' \<in> set (GetActiveTripInBlockAtTime block_db ''B1'' [''s1''] 29000)"
proof -
  have m: "stop_times_monotone block_db"
    by code_simp
  have s: "block_stop_match block_db ''B1'' [''s1''] 29000 block_trip_T1 28800"
    by code_simp
  note th = GetActiveTripInBlockAtTime_first_stop_match
              [of "''T1''" block_db "''B1''" "[''s1'']" 29000 block_trip_T1 28800]
  from th m s have "block_match block_db ''B1'' [''s1''] 29000 block_trip_T1 28800"
    by blast
  moreover from th have "''T1'' \<in> set (GetActiveTripInBlockAtTime block_db ''B1'' [''s1''] 29000)"
    by simp
  ultimately show ?thesis using m s by blast
qed

text \<open>
  C1 fails where stop times run backwards in the stop sequence: trip \<open>N1\<close> of block \<open>B1\<close>
  has minimum departure 100 and maximum arrival 500, so it matches at 300 as the claim
  defines a match, and the query returns none.
\<close>

theorem GetActiveTripInBlockAtTime_min_max_counterexample:
  "trips_key nonmonotone_db
   \<and> stop_times_trip_fk nonmonotone_db
   \<and> first_departure nonmonotone_db ''N1'' = Some 100
   \<and> last_arrival nonmonotone_db ''N1'' = Some 500
   \<and> block_match nonmonotone_db ''B1'' [''s1''] 300 nonmonotone_trip 100
   \<and> GetActiveTripInBlockAtTime nonmonotone_db ''B1'' [''s1''] 300 = []"
proof -
  have a: "trips_key nonmonotone_db" by code_simp
  have b: "stop_times_trip_fk nonmonotone_db" by code_simp
  have c: "first_departure nonmonotone_db ''N1'' = Some 100" by code_simp
  have d: "last_arrival nonmonotone_db ''N1'' = Some 500" by code_simp
  have e: "block_match nonmonotone_db ''B1'' [''s1''] 300 nonmonotone_trip 100" by code_simp
  have f: "GetActiveTripInBlockAtTime nonmonotone_db ''B1'' [''s1''] 300 = []" by code_simp
  show ?thesis using a b c d e f by blast
qed

section \<open>The active trip of a route\<close>




section \<open>Rebuild: the statements and their outcome\<close>

lemma run_steps_fail:
  "healthy < length xs \<Longrightarrow> run_steps generated healthy xs st = Inl StoreFailure"
  by (induction generated healthy xs st rule: run_steps.induct) simp_all

lemma run_steps_ok:
  "length xs \<le> healthy \<Longrightarrow>
     run_steps generated healthy xs st = Inr (fold (exec_step generated) xs st)"
  by (induction generated healthy xs st rule: run_steps.induct) simp_all

lemma Rebuild_cases:
  "Rebuild generated healthy now d =
     (if healthy < length (rebuild_steps now d) then (Inl StoreFailure, d)
      else (Inr (), rebuilt generated now d))"
  by (simp add: Rebuild_def rebuilt_def run_steps_fail run_steps_ok)

lemma map_fst_comp_enumerate:
  "map (\<lambda>x. f (fst x)) (enumerate n xs) = map f [n..<n + length xs]"
proof -
  have "map (\<lambda>x. f (fst x)) (enumerate n xs) = map f (map fst (enumerate n xs))"
    by (simp only: map_map comp_def)
  then show ?thesis by (simp only: map_fst_enumerate)
qed

lemma map_snd_comp_enumerate:
  "map (\<lambda>x. f (snd x)) (enumerate n xs) = map f xs"
proof -
  have "map (\<lambda>x. f (snd x)) (enumerate n xs) = map f (map snd (enumerate n xs))"
    by (simp only: map_map comp_def)
  then show ?thesis by (simp only: map_snd_enumerate)
qed

lemma fold_create_index:
  "fold (exec_step generated) (map (\<lambda>g. Create_index g (group_service_ids d0 g) now) gs)
     (d, ids)
     = (d\<lparr>block_trip_indexes := block_trip_indexes d
             @ map (index_row generated now d0) (enumerate (length ids) gs)\<rparr>,
        ids @ map (\<lambda>ng. (snd ng, generated (fst ng))) (enumerate (length ids) gs))"
proof (induction gs arbitrary: d ids)
  case Nil
  then show ?case by simp
next
  case (Cons g gs)
  let ?r = "index_row generated now d0 (length ids, g)"
  let ?d = "d\<lparr>block_trip_indexes := block_trip_indexes d @ [?r]\<rparr>"
  have step: "exec_step generated (Create_index g (group_service_ids d0 g) now) (d, ids)
                = (?d, ids @ [(g, generated (length ids))])"
    by (simp add: CreateBlockTripIndex_def index_row_def)
  show ?case
    unfolding list.map fold_Cons comp_def step
    using Cons.IH [of ?d "ids @ [(g, generated (length ids))]"]
    by simp
qed

lemma fold_create_entry:
  "fold (exec_step generated) (map (entry_step d0) rows) (d, ids)
     = (d\<lparr>block_trip_entries := block_trip_entries d @ map (entry_row ids d0) rows\<rparr>, ids)"
proof (induction rows arbitrary: d)
  case Nil
  then show ?case by simp
next
  case (Cons row rows)
  have step: "exec_step generated (entry_step d0 row) (d, ids)
     = (d\<lparr>block_trip_entries := block_trip_entries d @ [entry_row ids d0 row]\<rparr>, ids)"
    by (simp add: entry_step_def CreateBlockTripEntry_def entry_row_def)
  show ?case
    unfolding list.map fold_Cons comp_def step
    using Cons.IH [of "d\<lparr>block_trip_entries := block_trip_entries d @ [entry_row ids d0 row]\<rparr>"]
    by simp
qed

lemma rebuilt_eq:
  "rebuilt generated now d
     = d\<lparr>block_trip_indexes := index_rows generated now d,
         block_trip_entries := entry_rows generated d\<rparr>"
proof -
  let ?c = "d\<lparr>block_trip_entries := [], block_trip_indexes := []\<rparr>"
  have clr: "fold (exec_step generated) [Clear_entries, Clear_indices] (d, []) = (?c, [])"
    by (simp add: ClearBlockTripEntries_def ClearBlockTripIndices_def)
  have idx: "fold (exec_step generated)
               (map (\<lambda>g. Create_index g (group_service_ids d g) now) (index_groups d))
               (?c, [])
     = (?c\<lparr>block_trip_indexes := index_rows generated now d\<rparr>, group_ids generated d)"
    using fold_create_index [of generated d now "index_groups d" ?c "[]"]
    by (simp add: index_rows_def group_ids_def)
  have ent: "fold (exec_step generated) (map (entry_step d) (block_trip_sequences d))
               (?c\<lparr>block_trip_indexes := index_rows generated now d\<rparr>, group_ids generated d)
     = (?c\<lparr>block_trip_indexes := index_rows generated now d,
            block_trip_entries := entry_rows generated d\<rparr>,
        group_ids generated d)"
    using fold_create_entry [of generated d "block_trip_sequences d"
            "?c\<lparr>block_trip_indexes := index_rows generated now d\<rparr>" "group_ids generated d"]
    by (simp add: entry_rows_def)
  show ?thesis
    unfolding rebuilt_def rebuild_steps_def fold_append comp_def clr idx ent
    by simp
qed

section \<open>Rebuild twice\<close>



lemma Rebuild_ok:
  assumes "Rebuild generated healthy now d = (Inr (), d')"
  shows "d' = d\<lparr>block_trip_indexes := index_rows generated now d,
                 block_trip_entries := entry_rows generated d\<rparr>"
  using assms unfolding Rebuild_cases rebuilt_eq by (simp split: if_splits)








section \<open>The numbering of a block's trips\<close>

lemma filter_concat_map_key:
  assumes "distinct ks" and "\<And>k x. k \<in> set ks \<Longrightarrow> x \<in> set (f k) \<Longrightarrow> key x = k"
  shows "filter (\<lambda>x. key x = a) (concat (map f ks)) = (if a \<in> set ks then f a else [])"
  using assms
proof (induction ks)
  case Nil
  then show ?case by simp
next
  case (Cons k ks)
  have keys: "\<And>x. x \<in> set (f k) \<Longrightarrow> key x = k"
    using Cons.prems(2) by simp
  have ih: "filter (\<lambda>x. key x = a) (concat (map f ks)) = (if a \<in> set ks then f a else [])"
    using Cons by simp
  show ?case
  proof (cases "k = a")
    case True
    then have "a \<notin> set ks" using Cons.prems(1) by simp
    moreover have "filter (\<lambda>x. key x = a) (f k) = f k"
      using keys True by (simp add: filter_id_conv)
    ultimately show ?thesis using ih True by simp
  next
    case False
    have "filter (\<lambda>x. key x = a) (f k) = []"
      using keys False by (auto simp: filter_empty_conv)
    then show ?thesis using ih False by auto
  qed
qed

lemma block_trip_sequences_pair:
  "filter (\<lambda>row. fst (snd row) = s) (filter (\<lambda>row. fst row = b) (block_trip_sequences d))
     = (if b \<in> set (indexed_blocks d) \<and> s \<in> set (block_service_ids d b)
        then pair_trip_sequences d b s else [])"
proof -
  let ?inner = "\<lambda>b. concat (map (pair_trip_sequences d b) (block_service_ids d b))"
  have seqs: "block_trip_sequences d = concat (map ?inner (indexed_blocks d))"
    by (simp add: block_trip_sequences_def)
  have outer: "filter (\<lambda>row. fst row = b) (concat (map ?inner (indexed_blocks d)))
                 = (if b \<in> set (indexed_blocks d) then ?inner b else [])"
    by (rule filter_concat_map_key) (auto simp: indexed_blocks_def pair_trip_sequences_def)
  have inner: "filter (\<lambda>row. fst (snd row) = s) (?inner b)
                 = (if s \<in> set (block_service_ids d b) then pair_trip_sequences d b s else [])"
    by (rule filter_concat_map_key) (auto simp: block_service_ids_def pair_trip_sequences_def)
  show ?thesis
    unfolding seqs outer using inner by simp
qed

lemma entry_rows_pair:
  "[e \<leftarrow> entry_rows generated d. bte_block_id e = b \<and> bte_service_id e = s]
     = map (entry_row (group_ids generated d) d)
         (filter (\<lambda>row. fst (snd row) = s)
            (filter (\<lambda>row. fst row = b) (block_trip_sequences d)))"
  by (simp add: entry_rows_def filter_map comp_def entry_row_def trip_group_def conj_commute)

lemma MIN_agg_set: "set xs = set ys \<Longrightarrow> MIN_agg xs = MIN_agg ys"
  unfolding MIN_agg_def fold_min_case by auto

lemma first_departure_MIN_agg:
  "first_departure d tid = MIN_agg (map st_departure_time (trip_stop_times d tid))"
  by (simp add: first_departure_def MIN_agg_def)

lemma in_trips_by_block_join:
  "(t, st) \<in> set (trips_by_block_join d b sids) \<longleftrightarrow>
     t \<in> set (trips d) \<and> st \<in> set (stop_times d) \<and> st_trip_id st = t_id t
     \<and> t_block_id t = Some b \<and> t_service_id t \<in> set sids"
  unfolding trips_by_block_join_def by auto

lemma group_first_departure:
  assumes "k \<in> set (map group_by_key (trips_by_block_join d b sids))"
  shows "tb_first_departure_time (trips_by_block_group (trips_by_block_join d b sids) k)
           = first_departure d (fst k)"
proof -
  let ?rows = "trips_by_block_join d b sids"
  from assms obtain t0 st0 where r0: "(t0, st0) \<in> set ?rows" "group_by_key (t0, st0) = k"
    by auto
  have "set [st_departure_time (snd r). r \<leftarrow> ?rows, group_by_key r = k]
          = set (map st_departure_time (trip_stop_times d (fst k)))"
  proof (intro set_eqI iffI)
    fix x assume "x \<in> set [st_departure_time (snd r). r \<leftarrow> ?rows, group_by_key r = k]"
    then obtain t st where "(t, st) \<in> set ?rows" "group_by_key (t, st) = k"
        "x = st_departure_time st"
      by auto
    then show "x \<in> set (map st_departure_time (trip_stop_times d (fst k)))"
      by (auto simp: in_trips_by_block_join group_by_key_def set_trip_stop_times)
  next
    fix x assume "x \<in> set (map st_departure_time (trip_stop_times d (fst k)))"
    then obtain st where st: "st \<in> set (stop_times d)" "st_trip_id st = fst k"
        "x = st_departure_time st"
      by (auto simp: set_trip_stop_times)
    have "(t0, st) \<in> set ?rows"
      using r0 st by (auto simp: in_trips_by_block_join group_by_key_def)
    moreover have "group_by_key (t0, st) = k"
      using r0(2) by (simp add: group_by_key_def)
    ultimately show "x \<in> set [st_departure_time (snd r). r \<leftarrow> ?rows, group_by_key r = k]"
      using st(3) by force
  qed
  then show ?thesis
    unfolding first_departure_MIN_agg
    by (simp add: trips_by_block_group_def MIN_agg_set)
qed

lemma trips_by_block_first_departure:
  assumes "r \<in> set (GetTripsByBlockIDOrdered d b sids)"
  shows "tb_first_departure_time r = first_departure d (tb_id r)"
proof -
  let ?rows = "trips_by_block_join d b sids"
  from assms obtain k where k: "k \<in> set (map group_by_key ?rows)"
      "r = trips_by_block_group ?rows k"
    by (auto simp: GetTripsByBlockIDOrdered_def Let_def)
  have "tb_id r = fst k" using k(2) by (simp add: trips_by_block_group_def)
  then show ?thesis using group_first_departure [OF k(1)] k(2) by simp
qed

lemma trips_by_block_sorted:
  "sorted (map (\<lambda>r. first_departure d (tb_id r)) (GetTripsByBlockIDOrdered d b sids))"
proof -
  have eq: "map (\<lambda>r. first_departure d (tb_id r)) (GetTripsByBlockIDOrdered d b sids)
          = map tb_first_departure_time (GetTripsByBlockIDOrdered d b sids)"
    using trips_by_block_first_departure by (intro map_cong) auto
  show ?thesis
    unfolding eq by (simp add: GetTripsByBlockIDOrdered_def Let_def)
qed

lemma pair_trip_sequences_sequence:
  "map (\<lambda>row. int (fst (snd (snd row)))) (pair_trip_sequences d b s)
     = map int [0..<length (pair_trip_sequences d b s)]"
  using map_fst_comp_enumerate [of int 0 "GetTripsByBlockIDOrdered d b [s]"]
  by (simp add: pair_trip_sequences_def comp_def)

lemma pair_trip_sequences_departures:
  "map (\<lambda>row. first_departure d (tb_id (snd (snd (snd row))))) (pair_trip_sequences d b s)
     = map (\<lambda>r. first_departure d (tb_id r)) (GetTripsByBlockIDOrdered d b [s])"
  using map_snd_comp_enumerate
          [of "\<lambda>r. first_departure d (tb_id r)" 0 "GetTripsByBlockIDOrdered d b [s]"]
  by (simp add: pair_trip_sequences_def comp_def)

lemma entry_rows_pair_sequences:
  "map bte_block_trip_sequence [e \<leftarrow> entry_rows generated d. bte_block_id e = b \<and> bte_service_id e = s]
     = map int [0..<length [e \<leftarrow> entry_rows generated d. bte_block_id e = b \<and> bte_service_id e = s]]"
proof (cases "b \<in> set (indexed_blocks d) \<and> s \<in> set (block_service_ids d b)")
  case True
  have "map bte_block_trip_sequence (map (entry_row (group_ids generated d) d) (pair_trip_sequences d b s))
          = map (\<lambda>row. int (fst (snd (snd row)))) (pair_trip_sequences d b s)"
    by (simp add: entry_row_def comp_def)
  then show ?thesis
    unfolding entry_rows_pair block_trip_sequences_pair
    using True pair_trip_sequences_sequence [of d b s] by simp
next
  case False
  then show ?thesis
    unfolding entry_rows_pair block_trip_sequences_pair by auto
qed

lemma entry_rows_pair_departures:
  "sorted (map (\<lambda>e. first_departure d (bte_trip_id e))
             [e \<leftarrow> entry_rows generated d. bte_block_id e = b \<and> bte_service_id e = s])"
proof (cases "b \<in> set (indexed_blocks d) \<and> s \<in> set (block_service_ids d b)")
  case True
  have "map (\<lambda>e. first_departure d (bte_trip_id e)) (map (entry_row (group_ids generated d) d) (pair_trip_sequences d b s))
          = map (\<lambda>row. first_departure d (tb_id (snd (snd (snd row))))) (pair_trip_sequences d b s)"
    by (simp add: entry_row_def comp_def)
  then show ?thesis
    unfolding entry_rows_pair block_trip_sequences_pair
    using True pair_trip_sequences_departures [of d b s] trips_by_block_sorted [of d b "[s]"] by simp
next
  case False
  then show ?thesis
    unfolding entry_rows_pair block_trip_sequences_pair by auto
qed

lemma trips_by_block_keys:
  assumes "k \<in> set (map group_by_key (trips_by_block_join d b [s]))"
  shows "snd k = (Some b, s) \<and> (\<exists>t \<in> set (pair_trips d b s). t_id t = fst k)"
proof -
  from assms obtain t st where r: "(t, st) \<in> set (trips_by_block_join d b [s])"
      "k = group_by_key (t, st)"
    by auto
  then show ?thesis
    by (auto simp: in_trips_by_block_join group_by_key_def pair_trips_def)
qed

lemma trips_by_block_ids:
  "map tb_id (GetTripsByBlockIDOrdered d b [s])
     = map tb_id (sort_key tb_first_departure_time
         (map (trips_by_block_group (trips_by_block_join d b [s]))
            (remdups (map group_by_key (trips_by_block_join d b [s])))))"
  by (simp add: GetTripsByBlockIDOrdered_def Let_def)

lemma distinct_map_sort_key:
  "distinct (map g (sort_key f xs)) = distinct (map g xs)"
proof -
  have "mset (map g (sort_key f xs)) = mset (map g xs)"
    by (simp only: mset_map mset_sort)
  then show ?thesis by (rule mset_eq_imp_distinct_iff)
qed

lemma trips_by_block_distinct:
  "distinct (map tb_id (GetTripsByBlockIDOrdered d b [s]))"
proof -
  let ?rows = "trips_by_block_join d b [s]"
  let ?ks = "remdups (map group_by_key ?rows)"
  let ?xs = "map (trips_by_block_group ?rows) ?ks"
  have inj: "inj_on fst (set ?ks)"
  proof (rule inj_onI)
    fix x y assume "x \<in> set ?ks" "y \<in> set ?ks" "fst x = fst y"
    then show "x = y"
      using trips_by_block_keys [of x d b s] trips_by_block_keys [of y d b s]
      by (simp add: prod_eq_iff)
  qed
  have eq: "map tb_id ?xs = map fst ?ks"
    by (simp add: trips_by_block_group_def comp_def)
  have "distinct (map fst ?ks)"
    using inj by (simp add: distinct_map)
  then have dx: "distinct (map tb_id ?xs)"
    by (simp only: eq)
  have "distinct (map tb_id (sort_key tb_first_departure_time ?xs))"
    using dx by (simp only: distinct_map_sort_key)
  then show ?thesis
    unfolding trips_by_block_ids .
qed

lemma trips_by_block_of_pair:
  assumes "i \<in> set (map tb_id (GetTripsByBlockIDOrdered d b [s]))"
  shows "\<exists>t \<in> set (pair_trips d b s). t_id t = i"
proof -
  from assms obtain r where r: "r \<in> set (GetTripsByBlockIDOrdered d b [s])" "tb_id r = i"
    by auto
  from r(1) obtain k where k: "k \<in> set (map group_by_key (trips_by_block_join d b [s]))"
      "r = trips_by_block_group (trips_by_block_join d b [s]) k"
    by (auto simp: GetTripsByBlockIDOrdered_def Let_def)
  have "i = fst k"
    using r(2) k(2) by (simp add: trips_by_block_group_def)
  then show ?thesis using trips_by_block_keys [OF k(1)] by auto
qed

lemma ordered_ids_disjoint:
  fixes ids :: "string list"
  assumes srt: "sorted (map (first_departure d) ids)"
    and dist: "distinct ids"
    and mem: "\<And>i. i \<in> set ids \<Longrightarrow> \<exists>t \<in> set (pair_trips d b s). t_id t = i"
    and dj: "intervals_disjoint d b s"
    and ne: "intervals_nonempty d b s"
  shows "sorted_wrt (\<lambda>i j. last_arrival d i < first_departure d j) ids"
  unfolding sorted_wrt_iff_nth_less
proof (intro allI impI)
  fix m n assume mn: "m < n" "n < length ids"
  let ?i = "ids ! m" and ?j = "ids ! n"
  have le: "first_departure d ?i \<le> first_departure d ?j"
    using srt mn by (simp add: sorted_iff_nth_mono)
  have neq: "?i \<noteq> ?j"
    using dist mn by (simp add: nth_eq_iff_index_eq)
  obtain ti where ti: "ti \<in> set (pair_trips d b s)" "t_id ti = ?i"
    using mem [of ?i] mn by auto
  obtain tj where tj: "tj \<in> set (pair_trips d b s)" "t_id tj = ?j"
    using mem [of ?j] mn by auto
  have "last_arrival d ?i < first_departure d ?j \<or> last_arrival d ?j < first_departure d ?i"
    using dj ti tj neq unfolding intervals_disjoint_def by metis
  moreover have "first_departure d ?j \<le> last_arrival d ?j"
    using ne tj unfolding intervals_nonempty_def by metis
  ultimately show "last_arrival d ?i < first_departure d ?j"
    using le by (meson leD le_less_trans order_trans not_le_imp_less)
qed

lemma pair_trip_sequences_ids:
  "map (\<lambda>row. tb_id (snd (snd (snd row)))) (pair_trip_sequences d b s)
     = map tb_id (GetTripsByBlockIDOrdered d b [s])"
  using map_snd_comp_enumerate [of tb_id 0 "GetTripsByBlockIDOrdered d b [s]"]
  by (simp add: pair_trip_sequences_def comp_def)

lemma entry_rows_pair_ids:
  "map bte_trip_id [e \<leftarrow> entry_rows generated d. bte_block_id e = b \<and> bte_service_id e = s]
     = (if b \<in> set (indexed_blocks d) \<and> s \<in> set (block_service_ids d b)
        then map tb_id (GetTripsByBlockIDOrdered d b [s]) else [])"
proof -
  have "map bte_trip_id (map (entry_row (group_ids generated d) d) (pair_trip_sequences d b s))
          = map (\<lambda>row. tb_id (snd (snd (snd row)))) (pair_trip_sequences d b s)"
    by (simp add: entry_row_def comp_def)
  then show ?thesis
    unfolding entry_rows_pair block_trip_sequences_pair
    using pair_trip_sequences_ids [of d b s] by simp
qed

lemma entry_rows_pair_disjoint:
  assumes "intervals_disjoint d b s" and "intervals_nonempty d b s"
  shows "sorted_wrt (\<lambda>i j. last_arrival d i < first_departure d j)
           (map bte_trip_id [e \<leftarrow> entry_rows generated d. bte_block_id e = b \<and> bte_service_id e = s])"
proof (cases "b \<in> set (indexed_blocks d) \<and> s \<in> set (block_service_ids d b)")
  case True
  have srt: "sorted (map (first_departure d) (map tb_id (GetTripsByBlockIDOrdered d b [s])))"
    using trips_by_block_sorted [of d b "[s]"] by (simp add: comp_def)
  have "sorted_wrt (\<lambda>i j. last_arrival d i < first_departure d j)
          (map tb_id (GetTripsByBlockIDOrdered d b [s]))"
  proof (rule ordered_ids_disjoint [where b = b and s = s])
    show "sorted (map (first_departure d) (map tb_id (GetTripsByBlockIDOrdered d b [s])))"
      by (rule srt)
    show "distinct (map tb_id (GetTripsByBlockIDOrdered d b [s]))"
      by (rule trips_by_block_distinct)
    show "\<exists>t \<in> set (pair_trips d b s). t_id t = i"
      if "i \<in> set (map tb_id (GetTripsByBlockIDOrdered d b [s]))" for i
      using that by (rule trips_by_block_of_pair)
    show "intervals_disjoint d b s" by (rule assms(1))
    show "intervals_nonempty d b s" by (rule assms(2))
  qed
  then show ?thesis
    unfolding entry_rows_pair_ids using True by simp
next
  case False
  then show ?thesis unfolding entry_rows_pair_ids by auto
qed

lemma entry_rows_pair_increasing:
  assumes "intervals_disjoint d b s" and "intervals_nonempty d b s"
  shows "sorted_wrt (\<lambda>i j. first_departure d i < first_departure d j)
           (map bte_trip_id [e \<leftarrow> entry_rows generated d. bte_block_id e = b \<and> bte_service_id e = s])"
proof -
  let ?ids = "map bte_trip_id [e \<leftarrow> entry_rows generated d. bte_block_id e = b \<and> bte_service_id e = s]"
  have ne: "first_departure d i \<le> last_arrival d i" if "i \<in> set ?ids" for i
  proof -
    have "i \<in> set (map tb_id (GetTripsByBlockIDOrdered d b [s]))"
      using that unfolding entry_rows_pair_ids by (auto split: if_splits)
    then obtain t where "t \<in> set (pair_trips d b s)" "t_id t = i"
      using trips_by_block_of_pair by blast
    then show ?thesis
      using assms(2) unfolding intervals_nonempty_def by metis
  qed
  show ?thesis
  proof (rule sorted_wrt_mono_rel [OF _ entry_rows_pair_disjoint [OF assms]])
    fix i j
    assume "i \<in> set ?ids" and "last_arrival d i < first_departure d j"
    then show "first_departure d i < first_departure d j"
      using ne [of i] by (rule_tac le_less_trans)
  qed
qed

text \<open>
  C7, as the rebuild has it. After every successful Rebuild, for every (block id, service
  id) pair, the block_trip_sequence values of the pair's BlockTripEntry rows are
  0, 1, \<dots>, n - 1 in the order of the rows, and the first departures of their trips are
  non-decreasing along them. Where the active intervals of the pair's trips in the store
  are non-empty and pairwise disjoint, the first departures increase strictly and every
  trip of the sequence has arrived before a later one leaves.
\<close>

theorem Rebuild_block_trip_sequence:
  assumes "Rebuild generated healthy now d = (Inr (), d')"
  shows "map bte_block_trip_sequence
           [e \<leftarrow> block_trip_entries d'. bte_block_id e = b \<and> bte_service_id e = s]
         = map int [0..<length [e \<leftarrow> block_trip_entries d'.
                                  bte_block_id e = b \<and> bte_service_id e = s]]
     \<and> sorted (map (\<lambda>e. first_departure d (bte_trip_id e))
                [e \<leftarrow> block_trip_entries d'. bte_block_id e = b \<and> bte_service_id e = s])
     \<and> (intervals_disjoint d b s \<and> intervals_nonempty d b s \<longrightarrow>
          sorted_wrt (\<lambda>i j. first_departure d i < first_departure d j)
            (map bte_trip_id
               [e \<leftarrow> block_trip_entries d'. bte_block_id e = b \<and> bte_service_id e = s])
          \<and> sorted_wrt (\<lambda>i j. last_arrival d i < first_departure d j)
              (map bte_trip_id
                 [e \<leftarrow> block_trip_entries d'. bte_block_id e = b \<and> bte_service_id e = s]))"
proof -
  have "block_trip_entries d' = entry_rows generated d"
    using Rebuild_ok [OF assms] by simp
  then show ?thesis
    using entry_rows_pair_sequences [where generated = generated and d = d and b = b and s = s]
      entry_rows_pair_departures [where generated = generated and d = d and b = b and s = s]
      entry_rows_pair_increasing [where generated = generated and d = d and b = b and s = s]
      entry_rows_pair_disjoint [where generated = generated and d = d and b = b and s = s]
    by simp
qed

theorem Rebuild_block_trip_sequence_witness:
  "Rebuild (ids_from 1) 6 1000 block_db = (Inr (), block_db)
   \<and> intervals_disjoint block_db ''B1'' ''s1''
   \<and> intervals_nonempty block_db ''B1'' ''s1''
   \<and> map bte_block_trip_sequence
         [e \<leftarrow> block_trip_entries block_db. bte_block_id e = ''B1'' \<and> bte_service_id e = ''s1'']
       = [0, 1]
   \<and> map bte_trip_id
         [e \<leftarrow> block_trip_entries block_db. bte_block_id e = ''B1'' \<and> bte_service_id e = ''s1'']
       = [''T1'', ''T2'']
   \<and> sorted_wrt (\<lambda>i j. last_arrival block_db i < first_departure block_db j)
        (map bte_trip_id
           [e \<leftarrow> block_trip_entries block_db.
              bte_block_id e = ''B1'' \<and> bte_service_id e = ''s1''])"
proof -
  have a: "Rebuild (ids_from 1) 6 1000 block_db = (Inr (), block_db)"
    by code_simp
  have dj: "intervals_disjoint block_db ''B1'' ''s1''"
    by code_simp
  have ne: "intervals_nonempty block_db ''B1'' ''s1''"
    by code_simp
  have n: "map bte_block_trip_sequence
         [e \<leftarrow> block_trip_entries block_db. bte_block_id e = ''B1'' \<and> bte_service_id e = ''s1'']
       = [0, 1]"
    by code_simp
  have i: "map bte_trip_id
         [e \<leftarrow> block_trip_entries block_db. bte_block_id e = ''B1'' \<and> bte_service_id e = ''s1'']
       = [''T1'', ''T2'']"
    by code_simp
  show ?thesis
    using a dj ne n i Rebuild_block_trip_sequence [OF a, of "''B1''" "''s1''"] by blast
qed

text \<open>
  The strict increase and the disjoint intervals of C7 fail on trips that the store can
  hold: \<open>U1\<close> and \<open>U2\<close> of block \<open>B1\<close> and service \<open>s1\<close> both leave at 100, Rebuild numbers
  them 0 and 1, and \<open>U2\<close> leaves before \<open>U1\<close> has arrived at 300.
\<close>

theorem Rebuild_block_trip_sequence_counterexample:
  "stop_times_monotone overlap_db
   \<and> fst (Rebuild (ids_from 1) 5 1000 overlap_db) = Inr ()
   \<and> map (\<lambda>e. (bte_trip_id e, bte_block_id e, bte_service_id e, bte_block_trip_sequence e))
         (block_trip_entries (snd (Rebuild (ids_from 1) 5 1000 overlap_db)))
       = [(''U1'', ''B1'', ''s1'', 0), (''U2'', ''B1'', ''s1'', 1)]
   \<and> first_departure overlap_db ''U1'' = Some 100
   \<and> last_arrival overlap_db ''U1'' = Some 300
   \<and> first_departure overlap_db ''U2'' = Some 100
   \<and> last_arrival overlap_db ''U2'' = Some 400"
proof -
  have m: "stop_times_monotone overlap_db"
    by code_simp
  have a: "fst (Rebuild (ids_from 1) 5 1000 overlap_db) = Inr ()"
    by code_simp
  have b: "map (\<lambda>e. (bte_trip_id e, bte_block_id e, bte_service_id e, bte_block_trip_sequence e))
         (block_trip_entries (snd (Rebuild (ids_from 1) 5 1000 overlap_db)))
       = [(''U1'', ''B1'', ''s1'', 0), (''U2'', ''B1'', ''s1'', 1)]"
    by code_simp
  have c: "first_departure overlap_db ''U1'' = Some 100"
    by code_simp
  have d: "last_arrival overlap_db ''U1'' = Some 300"
    by code_simp
  have e: "first_departure overlap_db ''U2'' = Some 100"
    by code_simp
  have f: "last_arrival overlap_db ''U2'' = Some 400"
    by code_simp
  show ?thesis using m a b c d e f by blast
qed

end
